theory Spec2Isabelle
  imports Complex_Main "HOL-Library.Char_ord" "HOL-Library.List_Lexorder"
begin

section \<open>JavaScript values as the data engine of App.jsx sees them\<close>

text \<open>
  The engine works on the three kinds of cell value that the SQL decoder produces
  (number, string, null) and on \<open>undefined\<close>, which a lookup of a missing property
  yields.  Modelling choices, all at the level of the host language and not of the
  repository's code:
  \<^item> a string is a list of 8-bit characters, read as UTF-16 code units below 256; the
    euro sign of the currency class \<open>/[$,\<dots>]/\<close> has code unit 0x20AC and can therefore
    not occur in a modelled string, the pound (0xA3) and yen (0xA5) signs can;
  \<^item> a number is \<open>NaN\<close>, an infinity or a rational; the value of a numeric literal and
    the result of an addition or a multiplication are rounded to the nearest binary64,
    ties to even (\<open>to_double\<close>), so that the numbers which the engine computes are the
    binary64 values, with their exact rational value; \<open>+0\<close> and \<open>-0\<close> are identified;
  \<^item> HOL equality on values is then SameValueZero, the equality of \<open>Set\<close>.
\<close>

datatype jsnum = NaN | PosInf | NegInf | Fin rat

datatype jsval = Undefined | Null | Num jsnum | Str string

text \<open>ToBoolean, as used by \<open>!x\<close>, \<open>x || y\<close> and \<open>if (x)\<close>.\<close>

fun truthy :: "jsval \<Rightarrow> bool" where
  "truthy Undefined = False"
| "truthy Null = False"
| "truthy (Num NaN) = False"
| "truthy (Num (Fin q)) = (q \<noteq> 0)"
| "truthy (Num _) = True"
| "truthy (Str s) = (s \<noteq> [])"

text \<open>\<open>x || 0\<close> on a number: \<open>NaN\<close> and zero give \<open>0\<close>.\<close>

fun or_zero :: "jsnum \<Rightarrow> jsnum" where
  "or_zero NaN = Fin 0"
| "or_zero n = n"

subsection \<open>Characters and strings\<close>

definition is_digit :: "char \<Rightarrow> bool" where
  "is_digit c \<longleftrightarrow> CHR ''0'' \<le> c \<and> c \<le> CHR ''9''"

definition is_upper :: "char \<Rightarrow> bool" where
  "is_upper c \<longleftrightarrow> CHR ''A'' \<le> c \<and> c \<le> CHR ''Z''"

definition is_lower :: "char \<Rightarrow> bool" where
  "is_lower c \<longleftrightarrow> CHR ''a'' \<le> c \<and> c \<le> CHR ''z''"

text \<open>The class \<open>\w\<close> of a regular expression without the unicode flag.\<close>

definition is_word :: "char \<Rightarrow> bool" where
  "is_word c \<longleftrightarrow> is_upper c \<or> is_lower c \<or> is_digit c \<or> c = CHR ''_''"

text \<open>
  White space and line terminators below code unit 256: the characters that \<open>\s\<close>
  matches and that \<open>trim\<close>, \<open>parseFloat\<close> and \<open>Number\<close> skip.
\<close>

definition is_ws :: "char \<Rightarrow> bool" where
  "is_ws c \<longleftrightarrow> c \<in> set [CHR 0x09, CHR 0x0A, CHR 0x0B, CHR 0x0C, CHR 0x0D, CHR 0x20, CHR 0xA0]"

definition trim :: "string \<Rightarrow> string" where
  "trim s = rev (dropWhile is_ws (rev (dropWhile is_ws s)))"

text \<open>\<open>toLowerCase\<close> and \<open>toUpperCase\<close>; only the ASCII letters have a case in the model.\<close>

definition lower_char :: "char \<Rightarrow> char" where
  "lower_char c =
     (if is_upper c then ''abcdefghijklmnopqrstuvwxyz'' ! (of_char c - 65) else c)"

definition upper_char :: "char \<Rightarrow> char" where
  "upper_char c =
     (if is_lower c then ''ABCDEFGHIJKLMNOPQRSTUVWXYZ'' ! (of_char c - 97) else c)"

definition toLowerCase :: "string \<Rightarrow> string" where
  "toLowerCase s = map lower_char s"

definition toUpperCase :: "string \<Rightarrow> string" where
  "toUpperCase s = map upper_char s"

definition startsWith :: "string \<Rightarrow> string \<Rightarrow> bool" where
  "startsWith s p \<longleftrightarrow> take (length p) s = p"

definition endsWith :: "string \<Rightarrow> string \<Rightarrow> bool" where
  "endsWith s p \<longleftrightarrow> length p \<le> length s \<and> drop (length s - length p) s = p"

subsection \<open>Numbers from strings: \<open>parseFloat\<close> and \<open>Number\<close>\<close>

definition digit_val :: "char \<Rightarrow> int" where
  "digit_val c = of_char c - 48"

definition digits_val :: "string \<Rightarrow> int" where
  "digits_val s = foldl (\<lambda>n c. 10 * n + digit_val c) 0 s"

definition pow10 :: "int \<Rightarrow> rat" where
  "pow10 e = (if 0 \<le> e then 10 ^ nat e else 1 / 10 ^ nat (- e))"

text \<open>
  Rounding to binary64.  \<open>bitlen n\<close> is the number of binary digits of a positive
  integer and \<open>floor_log2 a\<close> the exponent \<open>e\<close> with \<open>2^e \<le> a < 2^(e+1)\<close>.  A real
  number \<open>x\<close> lies between two neighbouring multiples of the quantum \<open>2^(e-52)\<close>,
  where \<open>e\<close> is the exponent of \<open>\<bar>x\<bar>\<close>, but at least \<open>-1022\<close> (the subnormal range);
  \<open>to_double\<close> takes the nearer multiple and, of two equally near ones, the even one.
  A result of magnitude \<open>2^1024\<close> is an infinity.
\<close>

function bitlen :: "int \<Rightarrow> int" where
  "bitlen n = (if n \<le> 0 then 0 else 1 + bitlen (n div 2))"
  by pat_completeness auto
termination
  by (relation "measure nat") auto

declare bitlen.simps [simp del]

definition pow2 :: "int \<Rightarrow> rat" where
  "pow2 e = (if 0 \<le> e then 2 ^ nat e else 1 / 2 ^ nat (- e))"

definition floor_log2 :: "rat \<Rightarrow> int" where
  "floor_log2 a = (if 1 \<le> a then bitlen \<lfloor>a\<rfloor> - 1 else - bitlen (\<lceil>1 / a\<rceil> - 1))"

definition round_even :: "rat \<Rightarrow> int" where
  "round_even x =
     (let f = \<lfloor>x\<rfloor>; r = x - of_int f
      in if r < 1 / 2 then f else if 1 / 2 < r then f + 1 else if even f then f else f + 1)"

definition quantum :: "rat \<Rightarrow> rat" where
  "quantum a = pow2 (max (floor_log2 a) (- 1022) - 52)"

definition mantissa :: "rat \<Rightarrow> int" where
  "mantissa a = round_even (a / quantum a)"

definition to_double :: "rat \<Rightarrow> jsnum" where
  "to_double x =
     (if x = 0 then Fin 0
      else if pow2 1024 \<le> of_int (mantissa \<bar>x\<bar>) * quantum \<bar>x\<bar>
      then (if 0 < x then PosInf else NegInf)
      else Fin (if 0 < x then of_int (mantissa \<bar>x\<bar>) * quantum \<bar>x\<bar>
                else - (of_int (mantissa \<bar>x\<bar>) * quantum \<bar>x\<bar>)))"

text \<open>The rationals that are binary64 values, and the numbers of the engine.\<close>

definition is_double :: "rat \<Rightarrow> bool" where
  "is_double x \<longleftrightarrow> to_double x = Fin x"

fun binary64 :: "jsnum \<Rightarrow> bool" where
  "binary64 (Fin x) = is_double x"
| "binary64 n = True"

fun negate :: "jsnum \<Rightarrow> jsnum" where
  "negate NaN = NaN"
| "negate PosInf = NegInf"
| "negate NegInf = PosInf"
| "negate (Fin q) = Fin (- q)"

text \<open>
  ExponentPart: \<open>e\<close> or \<open>E\<close>, an optional sign and at least one digit.  Without a
  well-formed exponent the exponent is 0 and nothing is consumed.
\<close>

definition exp_part :: "string \<Rightarrow> int \<times> string" where
  "exp_part s =
     (case s of
        [] \<Rightarrow> (0, s)
      | c # r \<Rightarrow>
          if c = CHR ''e'' \<or> c = CHR ''E'' then
            (let (sgn, r') = (case r of
                                [] \<Rightarrow> (1, r)
                              | d # r1 \<Rightarrow> if d = CHR ''+'' then (1, r1)
                                         else if d = CHR ''-'' then (- 1, r1) else (1, r));
                 ds = takeWhile is_digit r'
             in if ds = [] then (0, s)
                else (sgn * digits_val ds, dropWhile is_digit r'))
          else (0, s))"

text \<open>
  The longest prefix that is a StrUnsignedDecimalLiteral, with its value and the rest
  of the string: \<open>Infinity\<close>, digits with an optional fraction and exponent, or a
  fraction that starts with the point.
\<close>

definition parse_unsigned :: "string \<Rightarrow> (jsnum \<times> string) option" where
  "parse_unsigned s =
     (if startsWith s ''Infinity'' then Some (PosInf, drop 8 s)
      else
        let ip = takeWhile is_digit s; r1 = dropWhile is_digit s in
        (case r1 of
           [] \<Rightarrow> if ip = [] then None else Some (to_double (of_int (digits_val ip)), [])
         | c # r2 \<Rightarrow>
             if c = CHR ''.'' then
               (let fp = takeWhile is_digit r2; r3 = dropWhile is_digit r2 in
                if ip = [] \<and> fp = [] then None
                else (let (e, r4) = exp_part r3
                      in Some (to_double (of_int (digits_val (ip @ fp)) * pow10 (e - int (length fp))), r4)))
             else if ip = [] then None
             else (let (e, r4) = exp_part r1
                   in Some (to_double (of_int (digits_val ip) * pow10 e), r4))))"

definition parse_decimal :: "string \<Rightarrow> (jsnum \<times> string) option" where
  "parse_decimal s =
     (case s of
        [] \<Rightarrow> None
      | c # r \<Rightarrow>
          if c = CHR ''+'' then parse_unsigned r
          else if c = CHR ''-'' then map_option (\<lambda>(n, t). (negate n, t)) (parse_unsigned r)
          else parse_unsigned s)"

text \<open>\<open>parseFloat(s)\<close>: leading white space is skipped, trailing text is ignored.\<close>

definition parseFloat :: "string \<Rightarrow> jsnum" where
  "parseFloat s =
     (case parse_decimal (dropWhile is_ws s) of None \<Rightarrow> NaN | Some (n, _) \<Rightarrow> n)"

text \<open>
  \<open>Number(s)\<close> for a string, as the global \<open>isFinite\<close> applies it: the whole trimmed
  string must be a numeric literal; the empty string is 0; \<open>0x\<close>, \<open>0o\<close> and \<open>0b\<close>
  literals are read in their base.
\<close>

definition hex_val :: "char \<Rightarrow> int option" where
  "hex_val c =
     (if is_digit c then Some (digit_val c)
      else if CHR ''a'' \<le> c \<and> c \<le> CHR ''f'' then Some (of_char c - 87)
      else if CHR ''A'' \<le> c \<and> c \<le> CHR ''F'' then Some (of_char c - 55)
      else None)"

definition radix_val :: "int \<Rightarrow> string \<Rightarrow> jsnum" where
  "radix_val b ds =
     (if ds \<noteq> [] \<and> list_all (\<lambda>c. case hex_val c of None \<Rightarrow> False | Some d \<Rightarrow> d < b) ds
      then to_double (of_int (foldl (\<lambda>n c. b * n + the (hex_val c)) 0 ds))
      else NaN)"

definition string_to_number :: "string \<Rightarrow> jsnum" where
  "string_to_number s =
     (let t = trim s in
      if t = [] then Fin 0
      else if startsWith t ''0x'' \<or> startsWith t ''0X'' then radix_val 16 (drop 2 t)
      else if startsWith t ''0o'' \<or> startsWith t ''0O'' then radix_val 8 (drop 2 t)
      else if startsWith t ''0b'' \<or> startsWith t ''0B'' then radix_val 2 (drop 2 t)
      else (case parse_decimal t of Some (n, []) \<Rightarrow> n | _ \<Rightarrow> NaN))"

definition isFinite_str :: "string \<Rightarrow> bool" where
  "isFinite_str s = (case string_to_number s of Fin _ \<Rightarrow> True | _ \<Rightarrow> False)"

definition isNaN :: "jsnum \<Rightarrow> bool" where
  "isNaN n \<longleftrightarrow> n = NaN"

subsection \<open>Strings from values: \<open>String(v)\<close>\<close>

definition digit_char :: "int \<Rightarrow> char" where
  "digit_char d = ''0123456789'' ! nat d"

function digits_of_int :: "int \<Rightarrow> string" where
  "digits_of_int n =
     (if n < 10 then [digit_char n]
      else digits_of_int (n div 10) @ [digit_char (n mod 10)])"
  by pat_completeness auto
termination
  by (relation "measure nat") auto

declare digits_of_int.simps [simp del]

text \<open>
  The digits after the decimal point of a fraction \<open>0 \<le> f < 1\<close>, at most \<open>k\<close> of them.
\<close>

fun frac_digits :: "nat \<Rightarrow> rat \<Rightarrow> string" where
  "frac_digits 0 f = []"
| "frac_digits (Suc k) f =
     (if f = 0 then []
      else (let d = \<lfloor>10 * f\<rfloor>
            in digit_char d # frac_digits k (10 * f - of_int d)))"

text \<open>
  Number::toString in decimal notation.  It is exact for the integers below \<open>10^21\<close> in
  magnitude and for the decimal fractions of at most 17 significant digits from
  \<open>10^-6\<close> on; the exponent notation of the other numbers and the shortest round-trip
  digits of a binary64 are not modelled.
\<close>

definition pos_to_string :: "rat \<Rightarrow> string" where
  "pos_to_string q =
     (let i = \<lfloor>q\<rfloor>; f = q - of_int i
      in digits_of_int i @ (if f = 0 then [] else CHR ''.'' # frac_digits 20 f))"

fun num_to_string :: "jsnum \<Rightarrow> string" where
  "num_to_string NaN = ''NaN''"
| "num_to_string PosInf = ''Infinity''"
| "num_to_string NegInf = ''-Infinity''"
| "num_to_string (Fin q) = (if q < 0 then CHR ''-'' # pos_to_string (- q) else pos_to_string q)"

fun js_String :: "jsval \<Rightarrow> string" where
  "js_String Undefined = ''undefined''"
| "js_String Null = ''null''"
| "js_String (Num n) = num_to_string n"
| "js_String (Str s) = s"

text \<open>
  \<open>parseFloat(v)\<close> on a value converts it to a string first.  For a number that
  conversion followed by \<open>parseFloat\<close> gives the number back (\<open>NaN\<close> and the
  infinities included), which the model takes as the definition on numbers.
\<close>

fun parseFloat_val :: "jsval \<Rightarrow> jsnum" where
  "parseFloat_val (Num n) = n"
| "parseFloat_val v = parseFloat (js_String v)"


subsection \<open>Plain objects used as dictionaries\<close>

text \<open>
  An object literal \<open>{}\<close> that the code fills by \<open>obj[k] = v\<close> is an association list
  in the order in which \<open>Object.keys\<close>, \<open>Object.values\<close> and the spread operator
  enumerate it: the keys that are array indices come first, in ascending numeric
  order, the other keys follow in the order of their first assignment.  An assignment
  to an existing key keeps its position.  A key is the string form of the value used
  as a subscript.  Properties inherited from \<open>Object.prototype\<close> are modelled only
  where a read of a missing key decides the result (see \<open>categoryBreakdown\<close>); the
  key \<open>__proto__\<close> is outside the model.
\<close>

type_synonym 'v dict = "(string \<times> 'v) list"

definition is_array_index :: "string \<Rightarrow> bool" where
  "is_array_index k \<longleftrightarrow>
     k \<noteq> [] \<and> list_all is_digit k \<and> (k = ''0'' \<or> hd k \<noteq> CHR ''0'') \<and> digits_val k < 4294967295"

definition dict_get :: "'v dict \<Rightarrow> string \<Rightarrow> 'v option" where
  "dict_get d k = map_of d k"

fun insert_index :: "string \<Rightarrow> 'v \<Rightarrow> 'v dict \<Rightarrow> 'v dict" where
  "insert_index k v [] = [(k, v)]"
| "insert_index k v ((k', v') # d) =
     (if is_array_index k' \<and> digits_val k' < digits_val k then (k', v') # insert_index k v d
      else (k, v) # (k', v') # d)"

definition dict_set :: "string \<Rightarrow> 'v \<Rightarrow> 'v dict \<Rightarrow> 'v dict" where
  "dict_set k v d =
     (if k \<in> fst ` set d then map (\<lambda>(k', v'). if k' = k then (k', v) else (k', v')) d
      else if is_array_index k then insert_index k v d
      else d @ [(k, v)])"

definition object_keys :: "'v dict \<Rightarrow> string list" where
  "object_keys d = map fst d"

definition object_values :: "'v dict \<Rightarrow> 'v list" where
  "object_values d = map snd d"

text \<open>A row is an object whose values are cell values; a missing field reads \<open>undefined\<close>.\<close>

type_synonym row = "jsval dict"

definition row_get :: "row \<Rightarrow> string \<Rightarrow> jsval" where
  "row_get r k = (case dict_get r k of None \<Rightarrow> Undefined | Some v \<Rightarrow> v)"

text \<open>An object literal or a spread: the fields are assigned from left to right.\<close>

definition assign_all :: "'v dict \<Rightarrow> (string \<times> 'v) list \<Rightarrow> 'v dict" where
  "assign_all d kvs = foldl (\<lambda>ob (k, v). dict_set k v ob) d kvs"

section \<open>Column type classifier: \<open>detectColumnType\<close>\<close>

datatype coltype = TNumber | TDate | TCategory | TText

text \<open>\<open>String(v).replace(/[$,\<dots>]/g, '').trim()\<close>\<close>

definition strip_currency :: "string \<Rightarrow> string" where
  "strip_currency s = filter (\<lambda>c. c \<notin> set [CHR ''$'', CHR '','', CHR 0xA3, CHR 0xA5]) s"

definition cleaned :: "jsval \<Rightarrow> string" where
  "cleaned v = trim (strip_currency (js_String v))"

text \<open>
  \<open>!isNaN(parseFloat(cleaned)) && isFinite(cleaned)\<close>.  The string form of a number
  has none of the stripped characters and reads back as the same number, so a number
  passes exactly when it is finite.
\<close>

fun numeric_like :: "jsval \<Rightarrow> bool" where
  "numeric_like (Num n) = (case n of Fin _ \<Rightarrow> True | _ \<Rightarrow> False)"
| "numeric_like v = (\<not> isNaN (parseFloat (cleaned v)) \<and> isFinite_str (cleaned v))"

text \<open>\<open>/^\d{4}-\d{2}-\d{2}/\<close> and \<open>/^\d{1,2}\/\d{1,2}\/\d{2,4}/\<close>\<close>

definition iso_date_prefix :: "string \<Rightarrow> bool" where
  "iso_date_prefix s \<longleftrightarrow>
     10 \<le> length s \<and> list_all is_digit (take 4 s) \<and> s ! 4 = CHR ''-'' \<and>
     list_all is_digit (take 2 (drop 5 s)) \<and> s ! 7 = CHR ''-'' \<and>
     list_all is_digit (take 2 (drop 8 s))"

definition slash_date_prefix :: "string \<Rightarrow> bool" where
  "slash_date_prefix s \<longleftrightarrow>
     (let d1 = takeWhile is_digit s; r1 = dropWhile is_digit s in
      length d1 \<in> {1, 2} \<and>
      (case r1 of
         [] \<Rightarrow> False
       | c # r2 \<Rightarrow> c = CHR ''/'' \<and>
           (let d2 = takeWhile is_digit r2; r3 = dropWhile is_digit r2 in
            length d2 \<in> {1, 2} \<and>
            (case r3 of
               [] \<Rightarrow> False
             | c' # r4 \<Rightarrow> c' = CHR ''/'' \<and> 2 \<le> length (takeWhile is_digit r4)))))"

text \<open>
  The test of the date count.  \<open>Date.parse\<close> accepts implementation-defined formats,
  so the classifier takes the set of strings it accepts as the parameter \<open>dp\<close>.
\<close>

fun date_like :: "(string \<Rightarrow> bool) \<Rightarrow> jsval \<Rightarrow> bool" where
  "date_like dp (Str s) = (dp s \<or> iso_date_prefix s \<or> slash_date_prefix s)"
| "date_like dp v = False"

text \<open>
  Binary64 arithmetic of the two thresholds.  \<open>fl_ratio a b\<close> is the binary64 nearest
  to \<open>a / b\<close> (ties to even) for positive integers; \<open>0.7\<close> is the binary64
  \<open>3152519739159347 / 2^52\<close> and \<open>0.3\<close> is \<open>5404319552844595 / 2^54\<close>.
\<close>

definition fl_ratio :: "int \<Rightarrow> int \<Rightarrow> rat" where
  "fl_ratio a b =
     (if a \<le> 0 \<or> b \<le> 0 then 0
      else
        let e0 = bitlen a - bitlen b;
            e = (if rat_of_int a / rat_of_int b < pow2 e0 then e0 - 1 else e0);
            num = (if e \<le> 52 then a * 2 ^ nat (52 - e) else a);
            den = (if e \<le> 52 then b else b * 2 ^ nat (e - 52));
            q = num div den;
            r = num mod den;
            m = (if 2 * r < den then q else if den < 2 * r then q + 1
                 else if even q then q else q + 1)
        in rat_of_int m * pow2 (e - 52))"

definition times_0_7 :: "nat \<Rightarrow> rat" where
  "times_0_7 n = fl_ratio (int n * 3152519739159347) (2 ^ 52)"

definition const_0_3 :: rat where
  "const_0_3 = 5404319552844595 / 2 ^ 54"

definition detectColumnType :: "(string \<Rightarrow> bool) \<Rightarrow> jsval list \<Rightarrow> coltype" where
  "detectColumnType dp values =
     (let sample = take 100 (filter (\<lambda>v. v \<noteq> Null \<and> v \<noteq> Str [] \<and> v \<noteq> Undefined) values) in
      if length sample = 0 then TText
      else
        let numericCount = length (filter numeric_like sample);
            dateCount = length (filter (date_like dp) sample)
        in if times_0_7 (length sample) < rat_of_nat numericCount then TNumber
           else if times_0_7 (length sample) < rat_of_nat dateCount then TDate
           else
             let uniqueRatio = fl_ratio (int (length (remdups sample))) (int (length sample))
             in if uniqueRatio < const_0_3 \<and> 5 < length sample then TCategory
                else TText)"

section \<open>Type processing: \<open>processTableData\<close>\<close>

text \<open>
  The types are computed per column from all rows; then every row is rebuilt with a
  fresh \<open>_id\<close>.  A cell of a number column that is neither null nor undefined becomes
  \<open>parseFloat(cleaned) || 0\<close>; every other cell is copied.
\<close>

definition column_types :: "(string \<Rightarrow> bool) \<Rightarrow> row list \<Rightarrow> string list \<Rightarrow> coltype dict" where
  "column_types dp tableData cols =
     foldl (\<lambda>types col. dict_set col (detectColumnType dp (map (\<lambda>row. row_get row col) tableData)) types)
       [] cols"

fun coerce_number :: "jsval \<Rightarrow> jsval" where
  "coerce_number (Num n) = Num (or_zero n)"
| "coerce_number v = Num (or_zero (parseFloat (cleaned v)))"

definition process_cell :: "coltype dict \<Rightarrow> row \<Rightarrow> string \<Rightarrow> jsval" where
  "process_cell types row col =
     (if dict_get types col = Some TNumber \<and> row_get row col \<noteq> Null \<and> row_get row col \<noteq> Undefined
      then coerce_number (row_get row col)
      else row_get row col)"

definition process_row :: "coltype dict \<Rightarrow> string list \<Rightarrow> nat \<Rightarrow> row \<Rightarrow> row" where
  "process_row types cols idx row =
     foldl (\<lambda>newRow col. dict_set col (process_cell types row col) newRow)
       [(''_id'', Num (Fin (of_nat idx)))] cols"

definition processTableData ::
  "(string \<Rightarrow> bool) \<Rightarrow> row list \<Rightarrow> string list \<Rightarrow> row list \<times> coltype dict" where
  "processTableData dp tableData cols =
     (let types = column_types dp tableData cols
      in (map (\<lambda>(idx, row). process_row types cols idx row) (enumerate 0 tableData), types))"


section \<open>Query state and \<open>switchTable\<close>\<close>

datatype sort_dir = Asc | Desc

record sort_config =
  key :: "string option"
  direction :: sort_dir

text \<open>
  A calculated column carries the closure \<open>calculate\<close>, which refers to the quantity
  and amount columns detected when the column was added.
\<close>

record calc_column =
  calc_name :: string
  calc_label :: string
  calc_qtyCol :: string
  calc_priceCol :: string

datatype agg_type = Sum | Count

datatype drill_level = Overview | Card | Program

text \<open>
  The drill-down cursor \<open>{ level, cardId, programId, programName }\<close>; the fields carry
  the prefix \<open>drill\<close> because the join has local variables of the same names.
\<close>

record drilldown_state =
  level :: drill_level
  drill_cardId :: jsval
  drill_programId :: jsval
  drill_programName :: jsval

record app_state =
  tables :: "row list dict"
  activeTable :: string
  columns :: "string list"
  columnTypes :: "coltype dict"
  filters :: "string dict"
  selectedCategory :: string
  selectedMonth :: string
  sortConfig :: sort_config
  calculatedColumns :: "calc_column list"
  groupByColumn :: string
  aggregationType :: agg_type
  topN :: nat
  drilldown :: drilldown_state

text \<open>The initial values of the \<open>useState\<close> hooks.\<close>

definition initial_state :: app_state where
  "initial_state =
     \<lparr>tables = [], activeTable = [], columns = [], columnTypes = [], filters = [],
      selectedCategory = ''all'', selectedMonth = ''all'',
      sortConfig = \<lparr>key = None, direction = Asc\<rparr>, calculatedColumns = [],
      groupByColumn = [], aggregationType = Sum, topN = 10,
      drilldown = \<lparr>level = Overview, drill_cardId = Null, drill_programId = Null,
                   drill_programName = Null\<rparr>\<rparr>"

text \<open>\<open>Object.keys(tableData[0] || {}).filter(k => k !== '_id')\<close>\<close>

definition table_columns :: "row list \<Rightarrow> string list" where
  "table_columns tableData =
     filter (\<lambda>k. k \<noteq> ''_id'') (object_keys (case tableData of [] \<Rightarrow> [] | r # _ \<Rightarrow> r))"

definition switchTable :: "(string \<Rightarrow> bool) \<Rightarrow> app_state \<Rightarrow> string \<Rightarrow> app_state" where
  "switchTable dp st tableName =
     (case dict_get (tables st) tableName of
        None \<Rightarrow> st
      | Some tableData \<Rightarrow>
          if length tableData = 0 then st
          else
            let cols = table_columns tableData;
                types = column_types dp tableData cols
            in st\<lparr>activeTable := tableName,
                  columns := cols,
                  columnTypes := types,
                  filters := [],
                  selectedCategory := ''all'',
                  sortConfig := \<lparr>key = None, direction = Asc\<rparr>,
                  calculatedColumns := []\<rparr>)"

section \<open>Arithmetic and comparison of values\<close>

text \<open>
  \<open>x + y\<close> and \<open>x * y\<close> on numbers: the exact sum or product of two finite numbers,
  rounded to binary64.
\<close>

fun num_add :: "jsnum \<Rightarrow> jsnum \<Rightarrow> jsnum" where
  "num_add NaN _ = NaN"
| "num_add _ NaN = NaN"
| "num_add PosInf NegInf = NaN"
| "num_add NegInf PosInf = NaN"
| "num_add PosInf _ = PosInf"
| "num_add _ PosInf = PosInf"
| "num_add NegInf _ = NegInf"
| "num_add _ NegInf = NegInf"
| "num_add (Fin a) (Fin b) = to_double (a + b)"

definition num_sub :: "jsnum \<Rightarrow> jsnum \<Rightarrow> jsnum" where
  "num_sub a b = num_add a (negate b)"

fun num_sign :: "jsnum \<Rightarrow> int" where
  "num_sign NaN = 0"
| "num_sign PosInf = 1"
| "num_sign NegInf = - 1"
| "num_sign (Fin q) = (if q < 0 then - 1 else if q = 0 then 0 else 1)"

fun num_mul :: "jsnum \<Rightarrow> jsnum \<Rightarrow> jsnum" where
  "num_mul NaN _ = NaN"
| "num_mul _ NaN = NaN"
| "num_mul (Fin a) (Fin b) = to_double (a * b)"
| "num_mul a b =
     (if num_sign a * num_sign b = 0 then NaN
      else if 0 < num_sign a * num_sign b then PosInf else NegInf)"

fun num_lt :: "jsnum \<Rightarrow> jsnum \<Rightarrow> bool" where
  "num_lt NaN _ = False"
| "num_lt _ NaN = False"
| "num_lt (Fin a) (Fin b) = (a < b)"
| "num_lt NegInf b = (b \<noteq> NegInf)"
| "num_lt a PosInf = (a \<noteq> PosInf)"
| "num_lt _ _ = False"

text \<open>ToNumber on a value, as the relational operators apply it.\<close>

fun to_number :: "jsval \<Rightarrow> jsnum" where
  "to_number Undefined = NaN"
| "to_number Null = Fin 0"
| "to_number (Num n) = n"
| "to_number (Str s) = string_to_number s"

text \<open>
  \<open>a < b\<close>: two strings are compared by code units, anything else as numbers; a
  comparison with \<open>NaN\<close> is false.  \<open>a > b\<close> is \<open>js_lt b a\<close>.
\<close>

fun js_lt :: "jsval \<Rightarrow> jsval \<Rightarrow> bool" where
  "js_lt (Str s) (Str t) = (s < t)"
| "js_lt a b = num_lt (to_number a) (to_number b)"

section \<open>Sorting\<close>

text \<open>
  \<open>Array.prototype.sort\<close> with a comparison function is stable; the model is the
  stable insertion sort, in which \<open>x\<close> goes before the first element \<open>y\<close> with
  \<open>cmp x y \<le> 0\<close>.  For a comparison function that is not a consistent order the
  standard leaves the result to the implementation.
\<close>

fun insert_by :: "('a \<Rightarrow> 'a \<Rightarrow> int) \<Rightarrow> 'a \<Rightarrow> 'a list \<Rightarrow> 'a list" where
  "insert_by cmp x [] = [x]"
| "insert_by cmp x (y # ys) = (if cmp x y \<le> 0 then x # y # ys else y # insert_by cmp x ys)"

definition js_sort :: "('a \<Rightarrow> 'a \<Rightarrow> int) \<Rightarrow> 'a list \<Rightarrow> 'a list" where
  "js_sort cmp xs = foldr (insert_by cmp) xs []"

text \<open>\<open>calcCol.calculate(row)\<close>: \<open>(parseFloat(row[qtyCol]) || 0) * (parseFloat(row[priceCol]) || 0)\<close>\<close>

definition calculate :: "calc_column \<Rightarrow> row \<Rightarrow> jsnum" where
  "calculate c row =
     num_mul (or_zero (parseFloat_val (row_get row (calc_qtyCol c))))
             (or_zero (parseFloat_val (row_get row (calc_priceCol c))))"

text \<open>The comparison function of the sort in \<open>filteredData\<close>.\<close>

definition sort_value :: "calc_column list \<Rightarrow> string \<Rightarrow> row \<Rightarrow> jsval" where
  "sort_value calcs k a =
     (case find (\<lambda>c. calc_name c = k) calcs of
        Some calcCol \<Rightarrow> Num (calculate calcCol a)
      | None \<Rightarrow> row_get a k)"

definition filtered_compare :: "calc_column list \<Rightarrow> string \<Rightarrow> sort_dir \<Rightarrow> row \<Rightarrow> row \<Rightarrow> int" where
  "filtered_compare calcs k dir a b =
     (let aVal = sort_value calcs k a; bVal = sort_value calcs k b in
      if aVal = Null \<or> aVal = Undefined then 1
      else if bVal = Null \<or> bVal = Undefined then - 1
      else if js_lt aVal bVal then (if dir = Asc then - 1 else 1)
      else if js_lt bVal aVal then (if dir = Asc then 1 else - 1)
      else 0)"

definition sort_filtered :: "calc_column list \<Rightarrow> sort_config \<Rightarrow> row list \<Rightarrow> row list" where
  "sort_filtered calcs cfg result =
     (case key cfg of
        None \<Rightarrow> result
      | Some k \<Rightarrow> if k = [] then result else js_sort (filtered_compare calcs k (direction cfg)) result)"

text \<open>
  The comparison function shared by \<open>cardSummaries\<close> and \<open>programSummaries\<close>; a
  summary entry is an object with the fields of the summary.
\<close>

fun lower_if_string :: "jsval \<Rightarrow> jsval" where
  "lower_if_string (Str s) = Str (toLowerCase s)"
| "lower_if_string v = v"

definition summary_compare :: "string \<Rightarrow> sort_dir \<Rightarrow> row \<Rightarrow> row \<Rightarrow> int" where
  "summary_compare k dir a b =
     (let aVal = lower_if_string (row_get a k); bVal = lower_if_string (row_get b k) in
      if js_lt aVal bVal then (if dir = Asc then - 1 else 1)
      else if js_lt bVal aVal then (if dir = Asc then 1 else - 1)
      else 0)"

definition sort_summaries :: "string \<Rightarrow> sort_dir \<Rightarrow> row list \<Rightarrow> row list" where
  "sort_summaries k dir raw = js_sort (summary_compare k dir) raw"


section \<open>Relational joiner: the join in \<open>processContent\<close>\<close>

text \<open>
  \<open>cardsMap\<close> and \<open>programsMap\<close>: every row is stored under \<open>row.id\<close> and under
  \<open>String(row.id)\<close>, which are the same property key.
\<close>

definition build_map :: "row list \<Rightarrow> row dict" where
  "build_map rows =
     foldl (\<lambda>m r. dict_set (js_String (Str (js_String (row_get r ''id'')))) r
                   (dict_set (js_String (row_get r ''id'')) r m)) [] rows"

text \<open>\<open>m[v] || m[String(v)]\<close>; a stored row is an object and therefore truthy.\<close>

definition lookup_both :: "row dict \<Rightarrow> jsval \<Rightarrow> row option" where
  "lookup_both m v =
     (case dict_get m (js_String v) of
        Some r \<Rightarrow> Some r
      | None \<Rightarrow> dict_get m (js_String (Str (js_String v))))"

definition js_or :: "jsval \<Rightarrow> jsval \<Rightarrow> jsval" where
  "js_or a b = (if truthy a then a else b)"

definition program_name :: "row option \<Rightarrow> jsval \<Rightarrow> jsval" where
  "program_name program programId =
     (if (case program of
            None \<Rightarrow> False
          | Some p \<Rightarrow> truthy (js_or (row_get p ''display_name'') (row_get p ''name'')))
      then (case program of
              None \<Rightarrow> Undefined
            | Some p \<Rightarrow> js_or (row_get p ''display_name'') (row_get p ''name''))
      else if programId \<noteq> Undefined \<and> programId \<noteq> Null
      then Str (''Program #'' @ js_String programId)
      else Str ''Unknown Program'')"

text \<open>\<open>Set.prototype.add\<close> on a set kept in insertion order.\<close>

definition set_add :: "'a \<Rightarrow> 'a list \<Rightarrow> 'a list" where
  "set_add x xs = (if x \<in> set xs then xs else xs @ [x])"

record join_state =
  joinedData :: "row list"
  matchedCards :: nat
  matchedPrograms :: nat
  unmatchedCardIds :: "jsval list"

text \<open>
  The body of the function mapped over the transactions, in the order of the source:
  the card of a transaction, the program of a card, the row that is returned, and the
  three counters.  \<open>card\<close> is the empty object when neither lookup finds a row; a
  read of a key that only \<open>Object.prototype\<close> defines yields an object without own
  enumerable keys and without \<open>card_program_id\<close>, which the code treats like the
  empty object.
\<close>

definition txn_card :: "row dict \<Rightarrow> row \<Rightarrow> row" where
  "txn_card cardsMap txn =
     (case lookup_both cardsMap (row_get txn ''card_id'') of Some c \<Rightarrow> c | None \<Rightarrow> [])"

definition card_program :: "row dict \<Rightarrow> row \<Rightarrow> row option" where
  "card_program programsMap cardRow =
     (if truthy (row_get cardRow ''card_program_id'')
      then lookup_both programsMap (row_get cardRow ''card_program_id'')
      else None)"

definition joined_row :: "row dict \<Rightarrow> row dict \<Rightarrow> nat \<times> row \<Rightarrow> row" where
  "joined_row cardsMap programsMap p =
     (let idx = fst p; txn = snd p;
          card = txn_card cardsMap txn;
          programId = row_get card ''card_program_id'';
          program = card_program programsMap card;
          programName = program_name program programId
      in assign_all [] ((''_id'', Num (Fin (of_nat idx))) # txn @
           [(''card_program_id'', programId), (''card_program_name'', programName)]))"

definition join_step :: "row dict \<Rightarrow> row dict \<Rightarrow> join_state \<Rightarrow> nat \<times> row \<Rightarrow> join_state" where
  "join_step cardsMap programsMap st p =
     (let card = txn_card cardsMap (snd p);
          program = card_program programsMap card
      in \<lparr>joinedData = joinedData st @ [joined_row cardsMap programsMap p],
          matchedCards = (if 0 < length (object_keys card) then matchedCards st + 1 else matchedCards st),
          matchedPrograms = (if program \<noteq> None then matchedPrograms st + 1 else matchedPrograms st),
          unmatchedCardIds = (if 0 < length (object_keys card) then unmatchedCardIds st
                              else set_add (row_get (snd p) ''card_id'') (unmatchedCardIds st))\<rparr>)"

definition join_tables :: "row list \<Rightarrow> row list \<Rightarrow> row list \<Rightarrow> join_state" where
  "join_tables transactions cards card_programs =
     foldl (join_step (build_map cards) (build_map card_programs))
       \<lparr>joinedData = [], matchedCards = 0, matchedPrograms = 0, unmatchedCardIds = []\<rparr>
       (enumerate 0 transactions)"

text \<open>
  The join finds a row for an identifier when the string forms agree: that is the
  property key under which \<open>build_map\<close> stores and \<open>lookup_both\<close> reads.
\<close>

definition id_matches :: "jsval \<Rightarrow> jsval \<Rightarrow> bool" where
  "id_matches a b \<longleftrightarrow> js_String a = js_String b"

section \<open>Group and aggregate: \<open>categoryBreakdown\<close>\<close>

record detected_columns =
  account :: "string option"
  amount :: "string option"
  quantity :: "string option"
  date :: "string option"
  category :: "string option"
  partNumber :: "string option"

record group_entry =
  name :: string
  "value" :: jsnum
  qty :: jsnum
  count :: nat
  fullName :: string

text \<open>A detected column is used when it is a non-empty string.\<close>

definition present :: "string option \<Rightarrow> bool" where
  "present c = (case c of None \<Rightarrow> False | Some s \<Rightarrow> s \<noteq> [])"

text \<open>\<open>groupByColumn || detectedColumns.category || detectedColumns.account\<close>\<close>

definition cat_column :: "string \<Rightarrow> detected_columns \<Rightarrow> string option" where
  "cat_column groupBy det =
     (if groupBy \<noteq> [] then Some groupBy
      else if present (category det) then category det
      else if present (account det) then account det
      else None)"

text \<open>
  The property names that every object inherits from \<open>Object.prototype\<close>.  For such a
  key \<open>breakdown[cat]\<close> is a function or an object, hence truthy, before the code has
  stored anything there: no group is created, and the increments go to the inherited
  object, which \<open>Object.values\<close> does not list.
\<close>

definition object_prototype_names :: "string list" where
  "object_prototype_names =
     [''constructor'', ''__defineGetter__'', ''__defineSetter__'', ''hasOwnProperty'',
      ''__lookupGetter__'', ''__lookupSetter__'', ''isPrototypeOf'', ''propertyIsEnumerable'',
      ''toString'', ''valueOf'', ''__proto__'', ''toLocaleString'']"

text \<open>An update of the object stored under a key, in place.\<close>

definition dict_modify :: "string \<Rightarrow> ('v \<Rightarrow> 'v) \<Rightarrow> 'v dict \<Rightarrow> 'v dict" where
  "dict_modify k f d = map (\<lambda>(k', v). if k' = k then (k', f v) else (k', v)) d"

definition ext_total :: "calc_column list \<Rightarrow> calc_column option" where
  "ext_total calcs = find (\<lambda>c. calc_name c = ''ext_total'') calcs"

text \<open>What one row adds to the \<open>value\<close> and to the \<open>qty\<close> of its group.\<close>

definition row_value :: "detected_columns \<Rightarrow> calc_column list \<Rightarrow> row \<Rightarrow> jsnum" where
  "row_value det calcs row =
     (if present (amount det) \<and> present (quantity det) \<and> ext_total calcs \<noteq> None
      then (case ext_total calcs of None \<Rightarrow> Fin 0 | Some calc \<Rightarrow> calculate calc row)
      else if present (amount det)
      then (case amount det of None \<Rightarrow> Fin 0
            | Some amountCol \<Rightarrow> or_zero (parseFloat_val (row_get row amountCol)))
      else Fin 0)"

definition row_qty :: "detected_columns \<Rightarrow> row \<Rightarrow> jsnum" where
  "row_qty det row =
     (if present (quantity det)
      then (case quantity det of None \<Rightarrow> Fin 0
            | Some qtyCol \<Rightarrow> or_zero (parseFloat_val (row_get row qtyCol)))
      else Fin 0)"

text \<open>
  The object that is stored for a new group, and the three updates \<open>count++\<close>,
  \<open>value += \<dots>\<close> and \<open>qty += \<dots>\<close> of the group of a row.
\<close>

definition new_group :: "string \<Rightarrow> group_entry" where
  "new_group k = \<lparr>name = take 25 k, value = Fin 0, qty = Fin 0, count = 0, fullName = k\<rparr>"

definition accumulate :: "detected_columns \<Rightarrow> calc_column list \<Rightarrow> row \<Rightarrow> group_entry \<Rightarrow> group_entry" where
  "accumulate det calcs row g =
     g\<lparr>count := count g + 1,
       value := num_add (value g) (row_value det calcs row),
       qty := num_add (qty g) (row_qty det row)\<rparr>"

definition breakdown_step ::
  "string \<Rightarrow> detected_columns \<Rightarrow> calc_column list \<Rightarrow> group_entry dict \<Rightarrow> row \<Rightarrow> group_entry dict" where
  "breakdown_step catCol det calcs breakdown row =
     (let cat = row_get row catCol in
      if \<not> truthy cat then breakdown
      else if dict_get breakdown (js_String cat) = None \<and> js_String cat \<in> set object_prototype_names
      then breakdown
      else
        let b1 = (if dict_get breakdown (js_String cat) = None
                  then dict_set (js_String cat) (new_group (js_String cat)) breakdown
                  else breakdown)
        in dict_modify (js_String cat) (accumulate det calcs row) b1)"

text \<open>\<open>(a, b) => b[sortKey] - a[sortKey]\<close>; a difference that is \<open>NaN\<close> counts as 0.\<close>

definition sort_key_of :: "agg_type \<Rightarrow> group_entry \<Rightarrow> jsnum" where
  "sort_key_of agg g = (if agg = Count then Fin (of_nat (count g)) else value g)"

definition breakdown_compare :: "agg_type \<Rightarrow> group_entry \<Rightarrow> group_entry \<Rightarrow> int" where
  "breakdown_compare agg a b = num_sign (num_sub (sort_key_of agg b) (sort_key_of agg a))"

definition categoryBreakdown ::
  "row list \<Rightarrow> detected_columns \<Rightarrow> calc_column list \<Rightarrow> string \<Rightarrow> agg_type \<Rightarrow> nat \<Rightarrow> group_entry list" where
  "categoryBreakdown filteredData det calcs groupBy agg topLimit =
     (case cat_column groupBy det of
        None \<Rightarrow> []
      | Some catCol \<Rightarrow>
          let breakdown = foldl (breakdown_step catCol det calcs) [] filteredData;
              sorted = js_sort (breakdown_compare agg) (object_values breakdown)
          in if 0 < topLimit then take topLimit sorted else sorted)"

text \<open>
  A row enters a group of \<open>categoryBreakdown\<close> when its group value is truthy.  The key
  of a row is own when it is not the name of a property that \<open>breakdown\<close> inherits.
\<close>

definition counted :: "string \<Rightarrow> row \<Rightarrow> bool" where
  "counted catCol row \<longleftrightarrow> truthy (row_get row catCol)"

definition own_key :: "string \<Rightarrow> row \<Rightarrow> bool" where
  "own_key catCol row \<longleftrightarrow> js_String (row_get row catCol) \<notin> set object_prototype_names"

text \<open>
  The rational value of a finite number, for sums in exact arithmetic, and the unit
  roundoff of binary64: rounding changes a number of the normal range by at most this
  fraction of its magnitude.
\<close>

definition unit_roundoff :: rat where
  "unit_roundoff = 1 / 2 ^ 53"

fun finite_num :: "jsnum \<Rightarrow> bool" where
  "finite_num (Fin x) = True"
| "finite_num n = False"

fun fin_val :: "jsnum \<Rightarrow> rat" where
  "fin_val (Fin x) = x"
| "fin_val n = 0"

text \<open>The invariant of the dictionary that \<open>categoryBreakdown\<close> builds.\<close>

definition breakdown_inv :: "group_entry dict \<Rightarrow> bool" where
  "breakdown_inv bd \<longleftrightarrow>
     distinct (map fst bd) \<and> (\<forall>k \<in> fst ` set bd. k \<notin> set object_prototype_names)"

section \<open>Lexical value decoder and export\<close>

text \<open>\<open>s.replace(/c/g, rep)\<close> for a one-character and for a two-character pattern.\<close>

definition replace_char :: "char \<Rightarrow> string \<Rightarrow> string \<Rightarrow> string" where
  "replace_char c rep s = concat (map (\<lambda>x. if x = c then rep else [x]) s)"

fun replace_pair :: "char \<Rightarrow> char \<Rightarrow> string \<Rightarrow> string \<Rightarrow> string" where
  "replace_pair a b rep (x # y # zs) =
     (if x = a \<and> y = b then rep @ replace_pair a b rep zs else x # replace_pair a b rep (y # zs))"
| "replace_pair a b rep s = s"

text \<open>\<open>v.slice(1, -1)\<close>\<close>

definition slice_1_m1 :: "string \<Rightarrow> string" where
  "slice_1_m1 v = butlast (tl v)"

text \<open>The function mapped over the fields of a tuple in \<open>parseSQLFile\<close>.\<close>

definition decode_value :: "string \<Rightarrow> jsval" where
  "decode_value v0 =
     (let v = trim v0 in
      if (startsWith v [CHR 0x27] \<and> endsWith v [CHR 0x27]) \<or>
         (startsWith v [CHR 0x22] \<and> endsWith v [CHR 0x22])
      then Str (replace_pair (CHR 0x5C) (CHR 0x22) [CHR 0x22]
                  (replace_pair (CHR 0x5C) (CHR 0x27) [CHR 0x27] (slice_1_m1 v)))
      else if toUpperCase v = ''NULL'' then Null
      else if \<not> isNaN (parseFloat v) \<and> isFinite_str v then Num (parseFloat v)
      else Str v)"

text \<open>The text that \<open>exportCSV\<close> writes for one value.\<close>

fun export_field :: "jsval \<Rightarrow> string" where
  "export_field Null = []"
| "export_field Undefined = []"
| "export_field (Str s) =
     (if CHR '','' \<in> set s \<or> CHR 0x22 \<in> set s
      then [CHR 0x22] @ replace_char (CHR 0x22) [CHR 0x22, CHR 0x22] s @ [CHR 0x22]
      else s)"
| "export_field (Num n) = num_to_string n"

definition export_cell :: "calc_column list \<Rightarrow> row \<Rightarrow> string \<Rightarrow> string" where
  "export_cell calcs row col =
     export_field (case find (\<lambda>c. calc_name c = col) calcs of
                     Some calcCol \<Rightarrow> Num (calculate calcCol row)
                   | None \<Rightarrow> row_get row col)"

fun join_with :: "string \<Rightarrow> string list \<Rightarrow> string" where
  "join_with sep [] = []"
| "join_with sep [x] = x"
| "join_with sep (x # y # ys) = x @ sep @ join_with sep (y # ys)"

definition exportCSV :: "string list \<Rightarrow> calc_column list \<Rightarrow> row list \<Rightarrow> string" where
  "exportCSV cols calcs filteredData =
     (let allCols = cols @ map calc_name calcs
      in join_with [CHR 0x0A]
           (join_with '','' allCols #
            map (\<lambda>row. join_with '','' (map (export_cell calcs row) allCols)) filteredData))"

section \<open>Regular expressions of \<open>parseSQLFile\<close>\<close>

text \<open>
  The four patterns that \<open>parseSQLFile\<close> runs with \<open>exec\<close> are data of the type \<open>re\<close>,
  and \<open>rmatch\<close> is the backtracking matcher of the language: it matches a sequence
  of items against a prefix of the input and returns the rest of the input and the
  captures of the first way to match, in the priority order of the standard (a greedy
  repetition tries the longest run first, a lazy one the shortest, an optional group
  is tried before it is skipped, alternatives are tried from left to right).  The
  items are those that the four patterns use; a repetition is always one of a
  character class.  A literal is matched without regard to the case of ASCII
  letters, as all patterns with letters carry the flag \<open>i\<close>.
\<close>

datatype re =
    Lit string
  | Cls "char \<Rightarrow> bool"
  | Rep "char \<Rightarrow> bool" nat bool
  | Opt "re list"
  | Cap nat "re list"
  | Alt "re list list"
  | Ahead "re list list"
  | Eos
  | Close nat string

type_synonym captures = "(nat \<times> string) list"

fun re_size :: "re \<Rightarrow> nat" where
  "re_size (Opt body) = Suc (sum_list (map re_size body))"
| "re_size (Cap i body) = Suc (Suc (sum_list (map re_size body)))"
| "re_size (Alt alts) = Suc (sum_list (map (\<lambda>a. sum_list (map re_size a)) alts))"
| "re_size (Ahead alts) = Suc (sum_list (map (\<lambda>a. sum_list (map re_size a)) alts))"
| "re_size r = 1"

definition seq_size :: "re list \<Rightarrow> nat" where
  "seq_size rs = sum_list (map re_size rs)"

fun first_some :: "('a \<Rightarrow> 'b option) \<Rightarrow> 'a list \<Rightarrow> 'b option" where
  "first_some f [] = None"
| "first_some f (x # xs) = (case f x of Some y \<Rightarrow> Some y | None \<Rightarrow> first_some f xs)"

lemma first_some_cong [fundef_cong]:
  "xs = ys \<Longrightarrow> (\<And>x. x \<in> set ys \<Longrightarrow> f x = g x) \<Longrightarrow> first_some f xs = first_some g ys"
  by (induction ys arbitrary: xs) (auto split: option.splits)

lemma seq_size_member: "a \<in> set alts \<Longrightarrow> seq_size a \<le> sum_list (map (\<lambda>a. sum_list (map re_size a)) alts)"
  by (induction alts) (auto simp: seq_size_def)

text \<open>
  \<open>Close i s0\<close> ends the capture group \<open>i\<close> that was entered with the input \<open>s0\<close>: the
  group has consumed what \<open>s0\<close> has more than the present input.
\<close>

function rmatch :: "re list \<Rightarrow> string \<Rightarrow> captures \<Rightarrow> (string \<times> captures) option" where
  "rmatch [] s caps = Some (s, caps)"
| "rmatch (Lit l # rs) s caps =
     (if toLowerCase (take (length l) s) = toLowerCase l then rmatch rs (drop (length l) s) caps
      else None)"
| "rmatch (Cls p # rs) s caps =
     (case s of [] \<Rightarrow> None | c # cs \<Rightarrow> if p c then rmatch rs cs caps else None)"
| "rmatch (Rep p n greedy # rs) s caps =
     (let k = length (takeWhile p s) in
      if k < n then None
      else first_some (\<lambda>j. rmatch rs (drop j s) caps)
             (if greedy then rev [n..<Suc k] else [n..<Suc k]))"
| "rmatch (Opt body # rs) s caps =
     (case rmatch (body @ rs) s caps of Some r \<Rightarrow> Some r | None \<Rightarrow> rmatch rs s caps)"
| "rmatch (Cap i body # rs) s caps = rmatch (body @ Close i s # rs) s caps"
| "rmatch (Close i s0 # rs) s caps = rmatch rs s ((i, take (length s0 - length s) s0) # caps)"
| "rmatch (Alt alts # rs) s caps = first_some (\<lambda>a. rmatch (a @ rs) s caps) alts"
| "rmatch (Ahead alts # rs) s caps =
     (if list_ex (\<lambda>a. rmatch a s caps \<noteq> None) alts then rmatch rs s caps else None)"
| "rmatch (Eos # rs) s caps = (if s = [] then rmatch rs s caps else None)"
  by pat_completeness auto
termination
proof (relation "measure (\<lambda>(rs, s, caps). seq_size rs)")
  show "wf (measure (\<lambda>(rs, s, caps). seq_size rs))"
    by simp
qed (auto simp: seq_size_def dest: seq_size_member)

declare rmatch.simps [simp del]

text \<open>
  \<open>exec\<close> on a pattern with the flag \<open>g\<close>: the leftmost match at or after the position
  where the last match ended.  The input is passed as the text from that position
  on; no pattern looks behind.
\<close>

fun rsearch :: "re list \<Rightarrow> string \<Rightarrow> (string \<times> captures) option" where
  "rsearch r [] = rmatch r [] []"
| "rsearch r (c # cs) =
     (case rmatch r (c # cs) [] of Some m \<Rightarrow> Some m | None \<Rightarrow> rsearch r cs)"

text \<open>
  The loop \<open>while ((match = re.exec(text)) !== null)\<close>: the captures of all matches in
  order.  Each of the four patterns consumes at least one character, so every match
  ends behind the place where the search began; the test on the lengths states this
  progress for the termination of the definition.
\<close>

function exec_all :: "re list \<Rightarrow> string \<Rightarrow> captures list" where
  "exec_all r s =
     (case rsearch r s of
        None \<Rightarrow> []
      | Some (rest, caps) \<Rightarrow>
          if length rest < length s then caps # exec_all r rest else [caps])"
  by pat_completeness auto
termination
  by (relation "measure (\<lambda>(r, s). length s)") auto

declare exec_all.simps [simp del]

definition group :: "captures \<Rightarrow> nat \<Rightarrow> string option" where
  "group caps i = map_of caps i"

text \<open>The character classes \<open>[`"'\[]\<close>, \<open>[`"'\]]\<close> and \<open>[\s\S]\<close>.\<close>

definition open_quote :: "char \<Rightarrow> bool" where
  "open_quote c \<longleftrightarrow> c \<in> set [CHR 0x60, CHR 0x22, CHR 0x27, CHR ''['']"

definition close_quote :: "char \<Rightarrow> bool" where
  "close_quote c \<longleftrightarrow> c \<in> set [CHR 0x60, CHR 0x22, CHR 0x27, CHR '']'']"

definition any_char :: "char \<Rightarrow> bool" where
  "any_char c \<longleftrightarrow> True"

definition not_rparen :: "char \<Rightarrow> bool" where
  "not_rparen c \<longleftrightarrow> c \<noteq> CHR '')''"

definition is_char :: "char \<Rightarrow> char \<Rightarrow> bool" where
  "is_char d c \<longleftrightarrow> c = d"

text \<open>
  \<open>/CREATE\s+TABLE\s+(?:IF\s+NOT\s+EXISTS\s+)?[`"'\[]?(\w+)[`"'\]]?\s*\(([\s\S]*?)\)(?:\s*ENGINE|\s*;|\s*$)/gi\<close>
\<close>

definition createTableRegex :: "re list" where
  "createTableRegex =
     [Lit ''CREATE'', Rep is_ws 1 True, Lit ''TABLE'', Rep is_ws 1 True,
      Opt [Lit ''IF'', Rep is_ws 1 True, Lit ''NOT'', Rep is_ws 1 True, Lit ''EXISTS'', Rep is_ws 1 True],
      Opt [Cls open_quote], Cap 1 [Rep is_word 1 True], Opt [Cls close_quote],
      Rep is_ws 0 True, Cls (is_char (CHR ''('')), Cap 2 [Rep any_char 0 False],
      Cls (is_char (CHR '')'')),
      Alt [[Rep is_ws 0 True, Lit ''ENGINE''],
           [Rep is_ws 0 True, Cls (is_char (CHR '';''))],
           [Rep is_ws 0 True, Eos]]]"

text \<open>
  \<open>/[`"'\[]?(\w+)[`"'\]]?\s+(INT|INTEGER|VARCHAR|TEXT|CHAR|DATE|DATETIME|TIMESTAMP|DECIMAL|FLOAT|DOUBLE|BOOLEAN|BOOL|BIGINT|SMALLINT|TINYINT|NUMERIC|REAL|MONEY|TIME|NVARCHAR|BIT)/gi\<close>
\<close>

definition colRegex :: "re list" where
  "colRegex =
     [Opt [Cls open_quote], Cap 1 [Rep is_word 1 True], Opt [Cls close_quote], Rep is_ws 1 True,
      Cap 2 [Alt [[Lit ''INT''], [Lit ''INTEGER''], [Lit ''VARCHAR''], [Lit ''TEXT''], [Lit ''CHAR''],
                  [Lit ''DATE''], [Lit ''DATETIME''], [Lit ''TIMESTAMP''], [Lit ''DECIMAL''],
                  [Lit ''FLOAT''], [Lit ''DOUBLE''], [Lit ''BOOLEAN''], [Lit ''BOOL''],
                  [Lit ''BIGINT''], [Lit ''SMALLINT''], [Lit ''TINYINT''], [Lit ''NUMERIC''],
                  [Lit ''REAL''], [Lit ''MONEY''], [Lit ''TIME''], [Lit ''NVARCHAR''], [Lit ''BIT'']]]]"

text \<open>
  \<open>/INSERT\s+INTO\s+[`"'\[]?(\w+)[`"'\]]?\s*(?:\(([^)]+)\))?\s*VALUES\s*([\s\S]*?)(?=INSERT\s+INTO|CREATE|DROP|ALTER|UPDATE|DELETE|;?\s*$)/gi\<close>
\<close>

definition insertRegex :: "re list" where
  "insertRegex =
     [Lit ''INSERT'', Rep is_ws 1 True, Lit ''INTO'', Rep is_ws 1 True,
      Opt [Cls open_quote], Cap 1 [Rep is_word 1 True], Opt [Cls close_quote], Rep is_ws 0 True,
      Opt [Cls (is_char (CHR ''('')), Cap 2 [Rep not_rparen 1 True], Cls (is_char (CHR '')''))],
      Rep is_ws 0 True, Lit ''VALUES'', Rep is_ws 0 True,
      Cap 3 [Rep any_char 0 False],
      Ahead [[Lit ''INSERT'', Rep is_ws 1 True, Lit ''INTO''], [Lit ''CREATE''], [Lit ''DROP''],
             [Lit ''ALTER''], [Lit ''UPDATE''], [Lit ''DELETE''],
             [Opt [Cls (is_char (CHR '';''))], Rep is_ws 0 True, Eos]]]"

text \<open>\<open>/\(([^)]+)\)/g\<close>\<close>

definition valueSetRegex :: "re list" where
  "valueSetRegex = [Cls (is_char (CHR ''('')), Cap 1 [Rep not_rparen 1 True], Cls (is_char (CHR '')''))]"

section \<open>SQL dump extractor: \<open>parseSQLFile\<close>\<close>

text \<open>
  The three replacements that produce \<open>cleanContent\<close>.  \<open>/--.*$/gm\<close> removes the text
  from \<open>--\<close> up to the next line terminator (the dot matches neither \<open>\n\<close> nor \<open>\r\<close>);
  \<open>/\/\*[\s\S]*?\*\//g\<close> removes a block comment up to the first \<open>*/\<close> behind its
  \<open>/*\<close>, and leaves an unclosed \<open>/*\<close> alone; \<open>/\r\n/g\<close> becomes \<open>\n\<close>.
\<close>

definition line_end :: "char \<Rightarrow> bool" where
  "line_end c \<longleftrightarrow> c = CHR 0x0A \<or> c = CHR 0x0D"

function strip_line_comments :: "string \<Rightarrow> string" where
  "strip_line_comments [] = []"
| "strip_line_comments [c] = [c]"
| "strip_line_comments (c # d # cs) =
     (if c = CHR ''-'' \<and> d = CHR ''-''
      then strip_line_comments (dropWhile (\<lambda>x. \<not> line_end x) cs)
      else c # strip_line_comments (d # cs))"
  by pat_completeness auto
termination
  by (relation "measure length") (auto simp: less_Suc_eq_le intro: le_trans [OF length_dropWhile_le])

fun find_close :: "string \<Rightarrow> string option" where
  "find_close (a # b # r) = (if a = CHR ''*'' \<and> b = CHR ''/'' then Some r else find_close (b # r))"
| "find_close s = None"

lemma find_close_shorter: "find_close s = Some r \<Longrightarrow> length r < length s"
  by (induction s rule: find_close.induct) (auto split: if_splits)

function strip_block_comments :: "string \<Rightarrow> string" where
  "strip_block_comments [] = []"
| "strip_block_comments [c] = [c]"
| "strip_block_comments (c # d # cs) =
     (if c = CHR ''/'' \<and> d = CHR ''*''
      then (case find_close cs of
              Some r \<Rightarrow> strip_block_comments r
            | None \<Rightarrow> c # strip_block_comments (d # cs))
      else c # strip_block_comments (d # cs))"
  by pat_completeness auto
termination
  by (relation "measure length") (auto dest: find_close_shorter)

definition clean_content :: "string \<Rightarrow> string" where
  "clean_content content =
     replace_pair (CHR 0x0D) (CHR 0x0A) [CHR 0x0A]
       (strip_block_comments (strip_line_comments content))"

text \<open>
  The scanner that splits the text of a tuple at the commas outside quoted literals.
  \<open>prev\<close> is the character before the current one (\<open>valueStr[i-1]\<close>), \<open>stringChar\<close> the
  quote that opened the literal.
\<close>

fun split_loop ::
  "char option \<Rightarrow> bool \<Rightarrow> char option \<Rightarrow> string \<Rightarrow> string list \<Rightarrow> string \<Rightarrow> string list" where
  "split_loop prev inString stringChar current values [] = values @ [trim current]"
| "split_loop prev inString stringChar current values (c # cs) =
     (if \<not> inString \<and> (c = CHR 0x27 \<or> c = CHR 0x22)
      then split_loop (Some c) True (Some c) (current @ [c]) values cs
      else if inString \<and> Some c = stringChar \<and> prev \<noteq> Some (CHR 0x5C)
      then split_loop (Some c) False stringChar (current @ [c]) values cs
      else if \<not> inString \<and> c = CHR '',''
      then split_loop (Some c) inString stringChar [] (values @ [trim current]) cs
      else split_loop (Some c) inString stringChar (current @ [c]) values cs)"

definition split_values :: "string \<Rightarrow> string list" where
  "split_values valueStr = split_loop None False None [] [] valueStr"






text \<open>\<open>s.split(',')\<close>\<close>

fun split_comma :: "string \<Rightarrow> string \<Rightarrow> string list" where
  "split_comma acc [] = [acc]"
| "split_comma acc (c # cs) =
     (if c = CHR '','' then acc # split_comma [] cs else split_comma (acc @ [c]) cs)"

text \<open>\<open>explicitColumns.split(',').map(c => c.trim().replace(/[`"'\[\]]/g, ''))\<close>\<close>

definition explicit_cols :: "string \<Rightarrow> string list" where
  "explicit_cols explicitColumns =
     map (\<lambda>c. filter (\<lambda>x. x \<notin> set [CHR 0x60, CHR 0x22, CHR 0x27, CHR ''['', CHR '']'']) (trim c))
       (split_comma [] explicitColumns)"

text \<open>The first loop: the declared columns of every \<open>CREATE TABLE\<close> with a recognised column.\<close>

definition column_defs :: "string \<Rightarrow> string list" where
  "column_defs columnsBlock =
     map (\<lambda>colMatch. case group colMatch 1 of None \<Rightarrow> [] | Some c \<Rightarrow> c) (exec_all colRegex columnsBlock)"

definition schema_step :: "string list dict \<Rightarrow> captures \<Rightarrow> string list dict" where
  "schema_step tableSchemas m =
     (let tableName = (case group m 1 of None \<Rightarrow> [] | Some n \<Rightarrow> n);
          columnsBlock = (case group m 2 of None \<Rightarrow> [] | Some b \<Rightarrow> b);
          columnDefs = column_defs columnsBlock
      in if 0 < length columnDefs then dict_set (toLowerCase tableName) columnDefs tableSchemas
         else tableSchemas)"

definition table_schemas :: "string \<Rightarrow> string list dict" where
  "table_schemas cleanContent = foldl schema_step [] (exec_all createTableRegex cleanContent)"

text \<open>
  The rows of one \<open>INSERT\<close> block.  \<open>cols\<close> is declared outside the loop over the
  tuples, so the names synthesised for the first tuple stay for the others.
\<close>

definition synth_cols :: "nat \<Rightarrow> string list" where
  "synth_cols n = map (\<lambda>i. ''column_'' @ digits_of_int (int i + 1)) [0..<n]"

definition make_row :: "nat \<Rightarrow> string list \<Rightarrow> jsval list \<Rightarrow> row" where
  "make_row n cols cleanedValues =
     foldl (\<lambda>row (i, col). dict_set col (if i < length cleanedValues then cleanedValues ! i else Null) row)
       [(''_id'', Num (Fin (of_nat n)))] (enumerate 0 cols)"

definition tuple_step :: "string list \<times> row list \<Rightarrow> captures \<Rightarrow> string list \<times> row list" where
  "tuple_step st valueMatch =
     (let cols0 = fst st; rows = snd st;
          valueStr = (case group valueMatch 1 of None \<Rightarrow> [] | Some v \<Rightarrow> v);
          cleanedValues = map decode_value (split_values valueStr);
          cols = (if length cols0 = 0 then synth_cols (length cleanedValues) else cols0)
      in (cols, rows @ [make_row (length rows) cols cleanedValues]))"

text \<open>
  The second loop.  \<open>extractedTables\<close> maps a table name to its columns and rows.  The
  two objects are created as \<open>{}\<close>: for the table names \<open>constructor\<close> and \<open>__proto__\<close>
  (the lower-case names that \<open>Object.prototype\<close> defines) the test
  \<open>!extractedTables[tableName]\<close> finds the inherited value, no entry is created, and
  the \<open>push\<close> on its missing \<open>rows\<close> raises a TypeError; without a column list the
  call \<open>cols.forEach\<close> on the inherited value raises it before.  A \<open>CREATE TABLE\<close> for
  the name \<open>__proto__\<close> and a column of that name are outside the model.
\<close>

datatype js_error = TypeError

definition insert_step ::
  "string list dict \<Rightarrow> js_error + (string list \<times> row list) dict \<Rightarrow> captures
     \<Rightarrow> js_error + (string list \<times> row list) dict" where
  "insert_step tableSchemas acc m =
     (case acc of
        Inl e \<Rightarrow> Inl e
      | Inr extractedTables \<Rightarrow>
          let tableName = toLowerCase (case group m 1 of None \<Rightarrow> [] | Some n \<Rightarrow> n);
              valuesBlock = (case group m 3 of None \<Rightarrow> [] | Some b \<Rightarrow> b);
              cols0 = (case group m 2 of
                         Some explicitColumns \<Rightarrow> explicit_cols explicitColumns
                       | None \<Rightarrow> (case dict_get tableSchemas tableName of
                                    Some schema \<Rightarrow> schema | None \<Rightarrow> []));
              tuples = exec_all valueSetRegex valuesBlock;
              res = foldl tuple_step (cols0, []) tuples;
              cols = fst res; rows = snd res
          in if tableName \<in> set [''constructor'', ''__proto__''] \<and> 0 < length tuples then Inl TypeError
             else if 0 < length rows
             then Inr (let created = (if dict_get extractedTables tableName = None
                                      then dict_set tableName (cols, []) extractedTables
                                      else extractedTables)
                       in dict_modify tableName (\<lambda>t. (fst t, snd t @ rows)) created)
             else Inr extractedTables)"

text \<open>\<open>rows.map((row, idx) => ({ ...row, _id: idx }))\<close>\<close>

definition renumber :: "row list \<Rightarrow> row list" where
  "renumber rows =
     map (\<lambda>(idx, row). assign_all [] (row @ [(''_id'', Num (Fin (of_nat idx)))])) (enumerate 0 rows)"

record parse_result =
  parsed_tables :: "row list dict"
  schemas :: "string list dict"

text \<open>
  \<open>parseSQLFile\<close> without its log lines.  The result is \<open>Inl TypeError\<close> where the
  function raises.
\<close>

definition parseSQLFile :: "string \<Rightarrow> js_error + parse_result" where
  "parseSQLFile content =
     (let cleanContent = clean_content content;
          tableSchemas = table_schemas cleanContent
      in case foldl (insert_step tableSchemas) (Inr []) (exec_all insertRegex cleanContent) of
           Inl e \<Rightarrow> Inl e
         | Inr extractedTables \<Rightarrow>
             Inr \<lparr>parsed_tables =
                    foldl (\<lambda>result (name, t). dict_set name (renumber (snd t)) result) [] extractedTables,
                  schemas = tableSchemas\<rparr>)"

section \<open>Verified properties\<close>

subsection \<open>Rounding to binary64\<close>

lemma bitlen_nonneg: "0 \<le> bitlen n"
proof (induction n rule: bitlen.induct)
  case (1 n)
  show ?case
  proof (cases "n \<le> 0")
    case True
    then show ?thesis by (subst bitlen.simps) simp
  next
    case False
    then have "0 \<le> bitlen (n div 2)" by (rule "1.IH")
    then show ?thesis using False by (subst bitlen.simps) simp
  qed
qed

lemma bitlen_pos: "0 < n \<Longrightarrow> 1 \<le> bitlen n"
  using bitlen_nonneg [of "n div 2"] by (subst bitlen.simps) simp

lemma bitlen_bounds:
  "0 < n \<Longrightarrow> 2 ^ nat (bitlen n - 1) \<le> n \<and> n < 2 ^ nat (bitlen n)"
proof (induction n rule: bitlen.induct)
  case (1 n)
  show ?case
  proof (cases "n = 1")
    case True
    then show ?thesis by (simp add: bitlen.simps)
  next
    case False
    then have h: "0 < n div 2" using "1.prems" by simp
    have ih: "2 ^ nat (bitlen (n div 2) - 1) \<le> n div 2 \<and> n div 2 < 2 ^ nat (bitlen (n div 2))"
      using "1.IH" h "1.prems" by simp
    have b: "bitlen n = 1 + bitlen (n div 2)"
      using "1.prems" by (simp add: bitlen.simps [of n])
    have p: "1 \<le> bitlen (n div 2)" using h by (rule bitlen_pos)
    have e1: "nat (bitlen n - 1) = Suc (nat (bitlen (n div 2) - 1))"
      using b p by simp
    have e2: "nat (bitlen n) = Suc (nat (bitlen (n div 2)))"
      using b p by simp
    have "2 * 2 ^ nat (bitlen (n div 2) - 1) \<le> 2 * (n div 2)" using ih by simp
    also have "\<dots> \<le> n" by simp
    finally have l: "2 ^ nat (bitlen n - 1) \<le> n" by (simp add: e1)
    have "n div 2 + 1 \<le> 2 ^ nat (bitlen (n div 2))" using ih by simp
    then have "2 * (n div 2) + 2 \<le> 2 * 2 ^ nat (bitlen (n div 2))" by simp
    moreover have "n < 2 * (n div 2) + 2" by simp
    ultimately have u: "n < 2 ^ nat (bitlen n)" by (simp add: e2)
    show ?thesis using l u by simp
  qed
qed

lemma pow2_powi: "pow2 e = 2 powi e"
  by (simp add: pow2_def power_int_def field_simps)

lemma pow2_pos [simp]: "0 < pow2 e"
  by (simp add: pow2_powi)

lemma pow2_nonneg [simp]: "0 \<le> pow2 e"
  by (simp add: pow2_powi)

lemma pow2_nonzero [simp]: "pow2 e \<noteq> 0"
  by (simp add: pow2_powi)

lemma pow2_add: "pow2 (a + b) = pow2 a * pow2 b"
  by (simp add: pow2_powi power_int_add)

lemma pow2_diff: "pow2 (a - b) = pow2 a / pow2 b"
  by (simp add: pow2_powi power_int_diff)

lemma pow2_mono: "a \<le> b \<Longrightarrow> pow2 a \<le> pow2 b"
  by (simp add: pow2_powi power_int_increasing)

lemma pow2_strict_mono: "a < b \<Longrightarrow> pow2 a < pow2 b"
  by (simp add: pow2_powi power_int_strict_increasing)

lemma pow2_le_iff: "pow2 a \<le> pow2 b \<longleftrightarrow> a \<le> b"
  using pow2_mono [of a b] pow2_strict_mono [of b a] by (auto simp: not_le [symmetric])

lemma pow2_less_iff: "pow2 a < pow2 b \<longleftrightarrow> a < b"
  using pow2_strict_mono [of a b] pow2_mono [of b a] by (auto simp: not_less [symmetric])

lemma pow2_nat: "0 \<le> e \<Longrightarrow> pow2 e = of_int (2 ^ nat e)"
  by (simp add: pow2_def)

lemma pow2_Suc: "pow2 (e + 1) = 2 * pow2 e"
  using pow2_add [of e 1] by (simp add: pow2_def [of 1])

lemma pow2_eqI: "a + b = c \<Longrightarrow> pow2 a * pow2 b = pow2 c"
  by (simp add: pow2_add [symmetric])

lemma pow2_numeral: "pow2 (numeral k) = 2 ^ numeral k"
  by (simp add: pow2_def)

lemma pow2_neg: "pow2 (- e) = 1 / pow2 e"
  by (simp add: pow2_powi power_int_minus field_simps)

lemma floor_log2_bounds:
  assumes "0 < a"
  shows "pow2 (floor_log2 a) \<le> a \<and> a < pow2 (floor_log2 a + 1)"
proof (cases "1 \<le> a")
  case True
  let ?n = "\<lfloor>a\<rfloor>"
  have n: "0 < ?n" using True by simp
  have e: "floor_log2 a = bitlen ?n - 1" using True by (simp add: floor_log2_def)
  have b: "2 ^ nat (bitlen ?n - 1) \<le> ?n \<and> ?n < 2 ^ nat (bitlen ?n)"
    using n by (rule bitlen_bounds)
  have p: "1 \<le> bitlen ?n" using n by (rule bitlen_pos)
  have "pow2 (bitlen ?n - 1) = of_int (2 ^ nat (bitlen ?n - 1))"
    using p by (simp add: pow2_nat)
  also have "\<dots> \<le> of_int ?n" using b by (simp only: of_int_le_iff)
  also have "\<dots> \<le> a" by simp
  finally have l: "pow2 (floor_log2 a) \<le> a" by (simp add: e)
  have "?n + 1 \<le> 2 ^ nat (bitlen ?n)" using b by simp
  then have "of_int (?n + 1) \<le> (of_int (2 ^ nat (bitlen ?n)) :: rat)" by (simp only: of_int_le_iff)
  moreover have "a < of_int (?n + 1)" by linarith
  ultimately have "a < of_int (2 ^ nat (bitlen ?n))" by linarith
  also have "\<dots> = pow2 (bitlen ?n)" using p by (simp add: pow2_nat)
  finally have u: "a < pow2 (floor_log2 a + 1)" by (simp add: e)
  show ?thesis using l u by simp
next
  case False
  let ?N = "\<lceil>1 / a\<rceil>"
  let ?k = "bitlen (?N - 1)"
  have inv: "1 < 1 / a" using False assms by simp
  then have N2: "2 \<le> ?N" by linarith
  then have n: "0 < ?N - 1" by simp
  have e: "floor_log2 a = - ?k" using False by (simp add: floor_log2_def)
  have b: "2 ^ nat (?k - 1) \<le> ?N - 1 \<and> ?N - 1 < 2 ^ nat ?k"
    using n by (rule bitlen_bounds)
  have p: "1 \<le> ?k" using n by (rule bitlen_pos)
  have "?N \<le> 2 ^ nat ?k" using b by simp
  then have "of_int ?N \<le> (of_int (2 ^ nat ?k) :: rat)" by (simp only: of_int_le_iff)
  moreover have "1 / a \<le> of_int ?N" by simp
  ultimately have "1 / a \<le> of_int (2 ^ nat ?k)" by linarith
  also have "\<dots> = pow2 ?k" using p by (simp add: pow2_nat)
  finally have "1 / a \<le> pow2 ?k" .
  then have "1 \<le> pow2 ?k * a" using assms by (simp add: field_simps)
  then have "pow2 (- ?k) \<le> a"
    by (simp add: pow2_neg field_simps)
  then have l: "pow2 (floor_log2 a) \<le> a" by (simp add: e)
  have "(of_int (2 ^ nat (?k - 1)) :: rat) \<le> of_int (?N - 1)" using b by (simp only: of_int_le_iff)
  moreover have "of_int (?N - 1) < 1 / a" by linarith
  ultimately have "of_int (2 ^ nat (?k - 1)) < 1 / a" by linarith
  then have "pow2 (?k - 1) < 1 / a" using p by (simp add: pow2_nat)
  then have "pow2 (?k - 1) * a < 1" using assms by (simp add: field_simps)
  then have "a < 1 / pow2 (?k - 1)"
    by (simp add: field_simps)
  then have "a < pow2 (- ?k + 1)"
    using pow2_neg [of "?k - 1"] by simp
  then have u: "a < pow2 (floor_log2 a + 1)" by (simp add: e)
  show ?thesis using l u by simp
qed

lemma floor_log2_unique:
  assumes "pow2 e \<le> a" and "a < pow2 (e + 1)"
  shows "floor_log2 a = e"
proof -
  have a: "0 < a" using assms(1) pow2_pos [of e] by linarith
  note b = floor_log2_bounds [OF a]
  have "pow2 e < pow2 (floor_log2 a + 1)" using assms(1) b by linarith
  then have "e < floor_log2 a + 1" by (simp only: pow2_less_iff)
  moreover have "pow2 (floor_log2 a) < pow2 (e + 1)" using assms(2) b by linarith
  then have "floor_log2 a < e + 1" by (simp only: pow2_less_iff)
  ultimately show ?thesis by simp
qed


lemma round_even_error: "\<bar>of_int (round_even x) - x\<bar> \<le> 1 / 2"
proof -
  have "of_int \<lfloor>x\<rfloor> \<le> x" "x < of_int \<lfloor>x\<rfloor> + 1" by linarith+
  then show ?thesis by (auto simp: round_even_def Let_def)
qed

lemma round_even_of_int [simp]: "round_even (of_int m) = m"
  by (simp add: round_even_def)

lemma round_even_ge: "of_int k \<le> x \<Longrightarrow> k \<le> round_even x"
proof -
  assume "of_int k \<le> x"
  then have "k \<le> \<lfloor>x\<rfloor>" by (simp add: le_floor_iff)
  then show ?thesis by (auto simp: round_even_def Let_def)
qed

lemma round_even_le: "x \<le> of_int k \<Longrightarrow> round_even x \<le> k"
proof -
  assume a: "x \<le> of_int k"
  have f: "\<lfloor>x\<rfloor> \<le> k" using a by (simp add: floor_le_iff)
  have "\<lfloor>x\<rfloor> + 1 \<le> k" if "of_int \<lfloor>x\<rfloor> < x"
  proof -
    have "of_int \<lfloor>x\<rfloor> < (of_int k :: rat)" using that a by linarith
    then show ?thesis by simp
  qed
  then show ?thesis using f by (auto simp: round_even_def Let_def)
qed

lemma quantum_pos [simp]: "0 < quantum a"
  by (simp add: quantum_def)

lemma quantum_nonneg [simp]: "0 \<le> quantum a"
  by (simp add: quantum_def)

lemma quantum_nonzero [simp]: "quantum a \<noteq> 0"
  by (simp add: quantum_def)

lemma mantissa_le:
  assumes "0 < a"
  shows "mantissa a \<le> 2 ^ 53"
proof -
  let ?e = "max (floor_log2 a) (- 1022)"
  have "a < pow2 (floor_log2 a + 1)" using floor_log2_bounds [OF assms] by simp
  also have "\<dots> \<le> pow2 (?e + 1)" by (rule pow2_mono) simp
  also have "\<dots> = pow2 53 * quantum a"
    unfolding quantum_def by (rule pow2_eqI [symmetric]) simp
  finally have "a / quantum a < pow2 53" by (simp add: field_simps)
  then have "a / quantum a \<le> of_int (2 ^ 53)" by (simp add: pow2_def)
  then show ?thesis unfolding mantissa_def by (rule round_even_le)
qed

lemma mantissa_ge:
  assumes "0 < a" and "- 1022 \<le> floor_log2 a"
  shows "2 ^ 52 \<le> mantissa a"
proof -
  have q: "quantum a = pow2 (floor_log2 a - 52)"
    using assms(2) by (simp add: quantum_def max_def)
  have "pow2 52 * quantum a = pow2 (floor_log2 a)"
    unfolding q by (rule pow2_eqI) simp
  also have "\<dots> \<le> a" using floor_log2_bounds [OF assms(1)] by simp
  finally have "pow2 52 \<le> a / quantum a" by (simp add: field_simps)
  then have "of_int (2 ^ 52) \<le> a / quantum a" by (simp add: pow2_def)
  then show ?thesis unfolding mantissa_def by (rule round_even_ge)
qed

lemma mantissa_nonneg: "0 \<le> a \<Longrightarrow> 0 \<le> mantissa a"
  unfolding mantissa_def using quantum_pos [of a] by (intro round_even_ge) (simp add: less_imp_le)

text \<open>A point of the grid of binary64 values is left unchanged.\<close>

lemma to_double_grid:
  assumes m: "0 < m" "m \<le> 2 ^ 53" and e: "- 1022 \<le> e"
    and norm: "2 ^ 52 \<le> m \<or> e = - 1022"
    and fin: "of_int m * pow2 (e - 52) < pow2 1024"
  shows "to_double (of_int m * pow2 (e - 52)) = Fin (of_int m * pow2 (e - 52))"
proof -
  let ?r = "of_int m * pow2 (e - 52) :: rat"
  have rpos: "0 < ?r" using m(1) by simp
  have "quantum ?r \<le> ?r \<and> of_int (mantissa ?r) * quantum ?r = ?r"
  proof (cases "m = 2 ^ 53")
    case True
    have "pow2 53 * pow2 (e - 52) = pow2 (e + 1)" by (rule pow2_eqI) simp
    then have r: "?r = pow2 (e + 1)"
      using True by (simp add: pow2_numeral)
    have "floor_log2 ?r = e + 1"
      by (rule floor_log2_unique) (simp_all add: r pow2_less_iff)
    then have q: "quantum ?r = pow2 (e - 51)"
      using e by (simp add: quantum_def max_def)
    have p52: "pow2 52 * pow2 (e - 51) = pow2 (e + 1)" by (rule pow2_eqI) simp
    then have eq: "?r = of_int (2 ^ 52) * pow2 (e - 51)"
      by (simp add: r pow2_numeral)
    have "?r / quantum ?r = ?r / pow2 (e - 51)" by (simp only: q)
    also have "\<dots> = of_int (2 ^ 52) * pow2 (e - 51) / pow2 (e - 51)" by (simp only: eq)
    also have "\<dots> = of_int (2 ^ 52)" by simp
    finally have "?r / quantum ?r = of_int (2 ^ 52)" .
    then have m52: "mantissa ?r = 2 ^ 52"
      unfolding mantissa_def by (simp only: round_even_of_int)
    have "pow2 (e - 51) \<le> pow2 (e + 1)" by (rule pow2_mono) simp
    then have "pow2 (e - 51) \<le> ?r" by (simp only: r)
    then have le: "quantum ?r \<le> ?r" by (simp only: q)
    have "of_int (mantissa ?r) * quantum ?r = of_int (2 ^ 52) * pow2 (e - 51)"
      by (simp only: q m52)
    then show ?thesis using le eq by simp
  next
    case False
    then have lt: "m < 2 ^ 53" using m(2) by simp
    have q: "quantum ?r = pow2 (e - 52)"
    proof (cases "2 ^ 52 \<le> m")
      case True
      have a52: "pow2 52 * pow2 (e - 52) = pow2 e" by (rule pow2_eqI) simp
      have a53: "pow2 53 * pow2 (e - 52) = pow2 (e + 1)" by (rule pow2_eqI) simp
      have i52: "(of_int (2 ^ 52) :: rat) \<le> of_int m" using True by (simp only: of_int_le_iff)
      have "pow2 e = of_int (2 ^ 52) * pow2 (e - 52)" using a52 by (simp add: pow2_numeral)
      also have "\<dots> \<le> ?r" using i52 by (rule mult_right_mono) simp
      finally have l: "pow2 e \<le> ?r" .
      have i53: "(of_int m :: rat) < of_int (2 ^ 53)" using lt by (simp only: of_int_less_iff)
      have "?r < of_int (2 ^ 53) * pow2 (e - 52)"
        using i53 by (rule mult_strict_right_mono) simp
      also have "\<dots> = pow2 (e + 1)" using a53 by (simp add: pow2_numeral)
      finally have u: "?r < pow2 (e + 1)" .
      have "floor_log2 ?r = e" using l u by (rule floor_log2_unique)
      then show ?thesis using e by (simp add: quantum_def max_def)
    next
      case f: False
      then have e1: "e = - 1022" using norm by simp
      have a52: "pow2 52 * pow2 (e - 52) = pow2 e" by (rule pow2_eqI) simp
      have i52: "(of_int m :: rat) < of_int (2 ^ 52)" using f by (simp only: of_int_less_iff)
      have "?r < of_int (2 ^ 52) * pow2 (e - 52)"
        using i52 by (rule mult_strict_right_mono) simp
      also have "\<dots> = pow2 e" using a52 by (simp add: pow2_numeral)
      finally have u: "?r < pow2 (- 1022)" using e1 by simp
      have "pow2 (floor_log2 ?r) < pow2 (- 1022)"
        using floor_log2_bounds [OF rpos] u by linarith
      then have "floor_log2 ?r < - 1022" by (simp only: pow2_less_iff)
      then show ?thesis using e1 by (simp add: quantum_def max_def)
    qed
    have "?r / quantum ?r = of_int m" by (simp add: q)
    then have "mantissa ?r = m"
      unfolding mantissa_def by (simp only: round_even_of_int)
    moreover have "pow2 (e - 52) \<le> ?r"
    proof -
      have "(1::rat) \<le> of_int m" using m(1) by simp
      then have "1 * pow2 (e - 52) \<le> of_int m * pow2 (e - 52)"
        by (rule mult_right_mono) simp
      then show ?thesis by simp
    qed
    ultimately show ?thesis by (simp add: q)
  qed
  then have "of_int (mantissa ?r) * quantum ?r = ?r" by simp
  then show ?thesis
    using rpos fin by (simp add: to_double_def abs_of_pos del: of_int_mult)
qed

lemma to_double_minus: "to_double (- x) = (case to_double x of Fin r \<Rightarrow> Fin (- r) | PosInf \<Rightarrow> NegInf | NegInf \<Rightarrow> PosInf | NaN \<Rightarrow> NaN)"
  by (simp add: to_double_def)


lemma to_double_pos_value:
  assumes "0 < x" and "to_double x = Fin r"
  shows "r = of_int (mantissa x) * quantum x \<and> r < pow2 1024"
  using assms by (simp add: to_double_def abs_of_pos split: if_splits)

lemma quantum_eq:
  "quantum a = pow2 (max (floor_log2 a) (- 1022) - 52)"
  by (rule quantum_def)

lemma to_double_idem_pos:
  assumes "0 < x" and "to_double x = Fin r"
  shows "to_double r = Fin r"
proof -
  let ?e = "max (floor_log2 x) (- 1022)"
  have r: "r = of_int (mantissa x) * pow2 (?e - 52)" and fin: "r < pow2 1024"
    using to_double_pos_value [OF assms] by (simp_all add: quantum_def)
  have m0: "0 \<le> mantissa x" using assms(1) by (intro mantissa_nonneg) simp
  show ?thesis
  proof (cases "mantissa x = 0")
    case True
    then show ?thesis using r by (simp add: to_double_def)
  next
    case False
    then have mpos: "0 < mantissa x" using m0 by simp
    have norm: "2 ^ 52 \<le> mantissa x \<or> ?e = - 1022"
    proof (cases "- 1022 \<le> floor_log2 x")
      case True
      then show ?thesis using mantissa_ge [OF assms(1)] by simp
    next
      case False
      then show ?thesis by (simp add: max_def)
    qed
    have "to_double (of_int (mantissa x) * pow2 (?e - 52)) = Fin (of_int (mantissa x) * pow2 (?e - 52))"
      using mpos mantissa_le [OF assms(1)] _ norm
    proof (rule to_double_grid)
      show "- 1022 \<le> ?e" by simp
      show "of_int (mantissa x) * pow2 (?e - 52) < pow2 1024" using fin r by simp
    qed
    then show ?thesis by (simp only: r)
  qed
qed

lemma to_double_neg_Fin:
  "to_double (- x) = Fin r \<longleftrightarrow> to_double x = Fin (- r)"
  by (auto simp: to_double_minus split: jsnum.splits)

lemma to_double_idem:
  assumes "to_double x = Fin r"
  shows "to_double r = Fin r"
proof -
  consider "x = 0" | "0 < x" | "x < 0" by linarith
  then show ?thesis
  proof cases
    case 1
    then show ?thesis using assms by (simp add: to_double_def)
  next
    case 2
    then show ?thesis using assms by (rule to_double_idem_pos)
  next
    case 3
    then have p: "0 < - x" by simp
    have "to_double (- x) = Fin (- r)" using assms by (simp add: to_double_neg_Fin)
    with p have "to_double (- r) = Fin (- r)" by (rule to_double_idem_pos)
    then show ?thesis by (simp add: to_double_neg_Fin)
  qed
qed

text \<open>Every binary64 value is a multiple of \<open>2^-1074\<close>.\<close>

lemma is_double_grid:
  assumes "to_double x = Fin x"
  shows "\<exists>k::int. x = of_int k * pow2 (- 1074)"
proof -
  have pos: "\<exists>k::int. y = of_int k * pow2 (- 1074)" if y: "0 < y" "to_double y = Fin y" for y
  proof -
    let ?e = "max (floor_log2 y) (- 1022)"
    have r: "y = of_int (mantissa y) * pow2 (?e - 52)"
      using to_double_pos_value [OF y] by (simp add: quantum_def)
    have "0 \<le> ?e + 1022" by simp
    then have "pow2 (?e + 1022) = of_int (2 ^ nat (?e + 1022))" by (rule pow2_nat)
    moreover have "pow2 (?e + 1022) * pow2 (- 1074) = pow2 (?e - 52)" by (rule pow2_eqI) simp
    ultimately have "pow2 (?e - 52) = of_int (2 ^ nat (?e + 1022)) * pow2 (- 1074)" by simp
    then have "y = of_int (mantissa y * 2 ^ nat (?e + 1022)) * pow2 (- 1074)"
      using r by (simp only: of_int_mult mult.assoc)
    then show ?thesis by blast
  qed
  consider "x = 0" | "0 < x" | "x < 0" by linarith
  then show ?thesis
  proof cases
    case 1
    then have "x = of_int 0 * pow2 (- 1074)" by simp
    then show ?thesis by blast
  next
    case 2
    then show ?thesis using assms by (rule pos)
  next
    case 3
    then have p: "0 < - x" by simp
    have "to_double (- x) = Fin (- x)" using assms by (simp add: to_double_neg_Fin)
    with p obtain k :: int where "- x = of_int k * pow2 (- 1074)" using pos by blast
    then have "x = of_int (- k) * pow2 (- 1074)" by simp
    then show ?thesis by blast
  qed
qed

text \<open>Rounding moves a number of the normal range by at most \<open>2^-53\<close> of its magnitude.\<close>

lemma to_double_error_pos:
  assumes "pow2 (- 1022) \<le> x" and "to_double x = Fin s"
  shows "\<bar>s - x\<bar> \<le> x / 2 ^ 53"
proof -
  have xpos: "0 < x" using assms(1) pow2_pos [of "- 1022"] by linarith
  have "pow2 (- 1022) < pow2 (floor_log2 x + 1)"
    using floor_log2_bounds [OF xpos] assms(1) by linarith
  then have n: "- 1022 \<le> floor_log2 x" by (simp add: pow2_less_iff)
  have q: "quantum x = pow2 (floor_log2 x - 52)"
    using n by (simp add: quantum_def max_def)
  have s: "s = of_int (mantissa x) * quantum x"
    using to_double_pos_value [OF xpos assms(2)] by simp
  have "pow2 53 * (quantum x / 2) = pow2 (floor_log2 x)"
  proof -
    have "pow2 53 * pow2 (floor_log2 x - 53) = pow2 (floor_log2 x)" by (rule pow2_eqI) simp
    moreover have "pow2 1 * pow2 (floor_log2 x - 53) = pow2 (floor_log2 x - 52)" by (rule pow2_eqI) simp
    then have "quantum x / 2 = pow2 (floor_log2 x - 53)" by (simp add: q pow2_numeral pow2_def [of 1])
    ultimately show ?thesis by simp
  qed
  also have "\<dots> \<le> x" using floor_log2_bounds [OF xpos] by simp
  finally have h: "quantum x / 2 \<le> x / 2 ^ 53" by (simp add: pow2_numeral field_simps)
  have "\<bar>of_int (mantissa x) - x / quantum x\<bar> \<le> 1 / 2"
    unfolding mantissa_def by (rule round_even_error)
  then have "\<bar>of_int (mantissa x) - x / quantum x\<bar> * quantum x \<le> 1 / 2 * quantum x"
    by (rule mult_right_mono) simp
  moreover have "\<bar>of_int (mantissa x) - x / quantum x\<bar> * quantum x
      = \<bar>of_int (mantissa x) * quantum x - x\<bar>"
  proof -
    have "\<bar>of_int (mantissa x) - x / quantum x\<bar> * quantum x
        = \<bar>(of_int (mantissa x) - x / quantum x) * quantum x\<bar>"
      by (simp add: abs_mult)
    also have "(of_int (mantissa x) - x / quantum x) * quantum x
        = of_int (mantissa x) * quantum x - x"
      by (simp add: left_diff_distrib)
    finally show ?thesis .
  qed
  ultimately have "\<bar>s - x\<bar> \<le> quantum x / 2" by (simp add: s)
  then show ?thesis using h by linarith
qed

lemma to_double_error:
  assumes "pow2 (- 1022) \<le> \<bar>x\<bar>" and "to_double x = Fin s"
  shows "\<bar>s - x\<bar> \<le> \<bar>x\<bar> / 2 ^ 53"
proof (cases "0 \<le> x")
  case True
  then show ?thesis using to_double_error_pos [of x s] assms by simp
next
  case False
  then have a: "pow2 (- 1022) \<le> - x" using assms(1) by simp
  have "to_double (- x) = Fin (- s)" using assms(2) by (simp add: to_double_neg_Fin)
  with a have "\<bar>- s - - x\<bar> \<le> - x / 2 ^ 53" by (rule to_double_error_pos)
  moreover have "\<bar>- s - - x\<bar> = \<bar>s - x\<bar>" by simp
  ultimately show ?thesis using False by simp
qed

text \<open>Below the normal range the multiples of \<open>2^-1074\<close> are binary64 values.\<close>

lemma to_double_subnormal:
  assumes "\<bar>x\<bar> < pow2 (- 1022)" and "x = of_int k * pow2 (- 1074)"
  shows "to_double x = Fin x"
proof -
  have pos: "to_double y = Fin y" if y: "0 < y" "y < pow2 (- 1022)" "y = of_int j * pow2 (- 1074)" for y j
  proof -
    have "pow2 (floor_log2 y) < pow2 (- 1022)"
      using floor_log2_bounds [OF y(1)] y(2) by linarith
    then have "floor_log2 y < - 1022" by (simp only: pow2_less_iff)
    then have q: "quantum y = pow2 (- 1074)" by (simp add: quantum_def max_def)
    have "y / quantum y = y / pow2 (- 1074)" by (simp only: q)
    also have "\<dots> = of_int j * pow2 (- 1074) / pow2 (- 1074)" by (simp only: y(3))
    also have "\<dots> = of_int j" by simp
    finally have "y / quantum y = of_int j" .
    then have "mantissa y = j" unfolding mantissa_def by (simp only: round_even_of_int)
    then have "of_int (mantissa y) * quantum y = of_int j * pow2 (- 1074)" by (simp only: q)
    then have v: "of_int (mantissa y) * quantum y = y" by (simp only: y(3))
    have "pow2 (- 1022) \<le> pow2 1024" by (rule pow2_mono) simp
    then have "y < pow2 1024" using y(2) by linarith
    then show ?thesis using y(1) v by (simp add: to_double_def abs_of_pos del: of_int_mult)
  qed
  consider "x = 0" | "0 < x" | "x < 0" by linarith
  then show ?thesis
  proof cases
    case 1
    then show ?thesis by (simp add: to_double_def)
  next
    case 2
    then show ?thesis using assms pos [of x k] by simp
  next
    case 3
    then have "0 < - x" "- x < pow2 (- 1022)" "- x = of_int (- k) * pow2 (- 1074)"
      using assms by simp_all
    then have "to_double (- x) = Fin (- x)" by (rule pos)
    then show ?thesis by (simp add: to_double_neg_Fin)
  qed
qed

text \<open>The sum of two binary64 values is rounded with a relative error of at most \<open>2^-53\<close>.\<close>

lemma to_double_sum_error:
  assumes "to_double a = Fin a" and "to_double b = Fin b" and "to_double (a + b) = Fin s"
  shows "\<bar>s - (a + b)\<bar> \<le> \<bar>a + b\<bar> / 2 ^ 53"
proof (cases "pow2 (- 1022) \<le> \<bar>a + b\<bar>")
  case True
  then show ?thesis using assms(3) by (rule to_double_error)
next
  case False
  obtain ka kb :: int where k: "a = of_int ka * pow2 (- 1074)" "b = of_int kb * pow2 (- 1074)"
    using is_double_grid [OF assms(1)] is_double_grid [OF assms(2)] by blast
  have "a + b = of_int (ka + kb) * pow2 (- 1074)"
    by (simp add: k distrib_right)
  with False have "to_double (a + b) = Fin (a + b)"
    by (intro to_double_subnormal [of _ "ka + kb"]) simp_all
  then have "s = a + b" using assms(3) by simp
  then show ?thesis by simp
qed

text \<open>Rules that evaluate \<open>to_double\<close> on a numeral.\<close>

lemma bitlen_numeral:
  "bitlen 0 = 0" "bitlen 1 = 1"
  "bitlen (numeral (Num.Bit0 k)) = 1 + bitlen (numeral k)"
  "bitlen (numeral (Num.Bit1 k)) = 1 + bitlen (numeral k)"
  "bitlen (- numeral k) = 0"
proof -
  show "bitlen 0 = 0" "bitlen (- numeral k) = 0" by (simp_all add: bitlen.simps)
  show "bitlen 1 = 1" by (simp add: bitlen.simps [of 1] bitlen.simps [of 0])
  have "numeral (Num.Bit0 k) div 2 = (numeral k :: int)" by simp
  then show "bitlen (numeral (Num.Bit0 k)) = 1 + bitlen (numeral k)"
    by (subst bitlen.simps) simp
  have "numeral (Num.Bit1 k) div 2 = (numeral k :: int)" by simp
  then show "bitlen (numeral (Num.Bit1 k)) = 1 + bitlen (numeral k)"
    by (subst bitlen.simps) simp
qed

lemma floor_rat_numeral: "\<lfloor>numeral a / numeral b :: rat\<rfloor> = numeral a div numeral b"
  using floor_divide_of_int_eq [of "numeral a" "numeral b", where ?'a = rat] by simp

lemma ceiling_rat_numeral: "\<lceil>numeral a / numeral b :: rat\<rceil> = - (- numeral a div numeral b)"
  using ceiling_divide_eq_div [of "numeral a" "numeral b", where ?'a = rat] by simp

lemma round_even_alt:
  "round_even x =
     (if x - of_int \<lfloor>x\<rfloor> < 1 / 2 then \<lfloor>x\<rfloor>
      else if 1 / 2 < x - of_int \<lfloor>x\<rfloor> then \<lfloor>x\<rfloor> + 1
      else if even \<lfloor>x\<rfloor> then \<lfloor>x\<rfloor> else \<lfloor>x\<rfloor> + 1)"
  by (simp add: round_even_def Let_def)

lemmas double_eval = to_double_def mantissa_def quantum_def floor_log2_def round_even_alt pow2_def
  bitlen_numeral floor_rat_numeral ceiling_rat_numeral

subsection \<open>The type classifier on a column without values\<close>

text \<open>
  Claim C10.  When every entry of a column is null, undefined or the empty string, the
  sample of \<open>detectColumnType\<close> is empty and the classifier answers \<open>text\<close>, whatever
  \<open>Date.parse\<close> accepts.  The function returns before the two thresholds and the
  ratio \<open>size / length\<close> are computed, so no division by the sample size takes place
  and none of \<open>number\<close>, \<open>date\<close> and \<open>category\<close> can be the answer.
\<close>

theorem detectColumnType_empty_sample:
  assumes "\<forall>v \<in> set values. v = Null \<or> v = Undefined \<or> v = Str []"
  shows "detectColumnType dp values = TText"
proof -
  have "filter (\<lambda>v. v \<noteq> Null \<and> v \<noteq> Str [] \<and> v \<noteq> Undefined) values = []"
    using assms by (auto simp: filter_empty_conv)
  then show ?thesis
    by (simp add: detectColumnType_def)
qed

theorem detectColumnType_empty_sample_witness:
  "list_all (\<lambda>v. v = Null \<or> v = Undefined \<or> v = Str []) [Null, Undefined, Str [], Null]
   \<and> detectColumnType (\<lambda>s. True) [Null, Undefined, Str [], Null] = TText"
  using detectColumnType_empty_sample [of "[Null, Undefined, Str [], Null]" "\<lambda>s. True"]
  by simp

subsection \<open>Dictionaries\<close>

lemma map_of_insert_index:
  "map_of (insert_index k v d) k' = (if k' = k then Some v else map_of d k')"
  by (induction d) auto

lemma map_of_replace_other:
  "k' \<noteq> k \<Longrightarrow> map_of (map (\<lambda>(a, b). if a = k then (a, v) else (a, b)) d) k' = map_of d k'"
  by (induction d) (simp_all add: case_prod_beta)

lemma map_of_replace_same:
  "k \<in> fst ` set d \<Longrightarrow> map_of (map (\<lambda>(a, b). if a = k then (a, v) else (a, b)) d) k = Some v"
  by (induction d) (auto simp: case_prod_beta)

lemma map_of_snoc_fresh:
  "k \<notin> fst ` set d \<Longrightarrow> map_of (d @ [(k, v)]) k' = (if k' = k then Some v else map_of d k')"
  by (induction d) auto

lemma dict_get_set:
  "dict_get (dict_set k v d) k' = (if k' = k then Some v else dict_get d k')"
  unfolding dict_get_def dict_set_def
  by (simp add: map_of_insert_index map_of_replace_other map_of_replace_same map_of_snoc_fresh
      del: map_of_append)

lemma dict_get_foldl_set:
  "dict_get (foldl (\<lambda>r c. dict_set c (f c) r) init cols) k =
     (if k \<in> set cols then Some (f k) else dict_get init k)"
  by (induction cols rule: rev_induct) (auto simp: dict_get_set)

subsection \<open>Evaluation of the number parser on literals\<close>

lemmas num_eval =
  parseFloat_def parse_decimal_def parse_unsigned_def startsWith_def exp_part_def
  digits_val_def digit_val_def pow10_def isNaN_def isFinite_str_def double_eval
  string_to_number_def is_digit_def is_ws_def trim_def cleaned_def strip_currency_def
  radix_val_def hex_val_def

subsection \<open>Type processing of a number column\<close>

lemma row_get_process_row:
  "col \<in> set cols \<Longrightarrow> row_get (process_row types cols idx row) col = process_cell types row col"
  by (simp add: process_row_def row_get_def dict_get_foldl_set)

lemma or_zero_not_NaN: "or_zero n \<noteq> NaN"
  by (cases n) auto

lemma coerce_number_is_number: "\<exists>n. coerce_number v = Num n \<and> n \<noteq> NaN"
  by (cases v) (auto simp: or_zero_not_NaN)

text \<open>
  A table whose column \<open>a\<close> holds three numeric strings, one string that is no number
  and a null: three of the four sampled values are numeric, which exceeds
  \<open>4 * 0.7\<close>, so the column is a number column.
\<close>

lemma detect_mixed_column:
  "detectColumnType (\<lambda>s. False) [Str ''1'', Str ''2'', Str ''3'', Str ''n/a'', Null] = TNumber"
  by (simp add: detectColumnType_def Let_def num_eval times_0_7_def fl_ratio_def pow2_def
      bitlen.simps)

lemma process_mixed_table:
  "processTableData (\<lambda>s. False)
     [[(''_id'', Num (Fin 0)), (''a'', Str ''1'')],
      [(''_id'', Num (Fin 1)), (''a'', Str ''2'')],
      [(''_id'', Num (Fin 2)), (''a'', Str ''3'')],
      [(''_id'', Num (Fin 3)), (''a'', Str ''n/a'')],
      [(''_id'', Num (Fin 4)), (''a'', Null)]] [''a'']
   = ([[(''_id'', Num (Fin 0)), (''a'', Num (Fin 1))],
       [(''_id'', Num (Fin 1)), (''a'', Num (Fin 2))],
       [(''_id'', Num (Fin 2)), (''a'', Num (Fin 3))],
       [(''_id'', Num (Fin 3)), (''a'', Num (Fin 0))],
       [(''_id'', Num (Fin 4)), (''a'', Null)]],
      [(''a'', TNumber)])"
  by (simp add: processTableData_def column_types_def detect_mixed_column Let_def
      dict_set_def dict_get_def row_get_def is_array_index_def
      process_row_def process_cell_def enumerate_eq_zip num_eval)

text \<open>
  Claim C7, as the code has it.  The claim says that every cell of a number column
  holds a number after type processing.  \<open>processTableData\<close> guards the coercion with
  \<open>row[col] !== null && row[col] !== undefined\<close>, so a null or undefined cell of a
  number column is copied as it is.  What holds: in a column classified as number,
  a null cell stays null, an undefined cell stays undefined, and every other cell
  becomes a number that is not \<open>NaN\<close>; a string cell whose cleaned text does not parse
  becomes \<open>0\<close>.
\<close>

theorem processTableData_number_column:
  assumes "processTableData dp tableData cols = (processedData, types)"
    and "col \<in> set cols"
    and "dict_get types col = Some TNumber"
    and "i < length tableData"
  shows "(row_get (tableData ! i) col = Null \<longrightarrow> row_get (processedData ! i) col = Null)
       \<and> (row_get (tableData ! i) col = Undefined \<longrightarrow> row_get (processedData ! i) col = Undefined)
       \<and> (row_get (tableData ! i) col \<noteq> Null \<and> row_get (tableData ! i) col \<noteq> Undefined \<longrightarrow>
            (\<exists>n. row_get (processedData ! i) col = Num n \<and> n \<noteq> NaN))
       \<and> (\<forall>s. row_get (tableData ! i) col = Str s \<and> parseFloat (cleaned (Str s)) = NaN \<longrightarrow>
            row_get (processedData ! i) col = Num (Fin 0))"
proof -
  have types: "types = column_types dp tableData cols"
    and pd: "processedData = map (\<lambda>(idx, row). process_row types cols idx row) (enumerate 0 tableData)"
    using assms(1) by (auto simp: processTableData_def Let_def)
  have "processedData ! i = process_row types cols i (tableData ! i)"
    using assms(4) by (simp add: pd nth_enumerate_eq)
  then have cell: "row_get (processedData ! i) col = process_cell types (tableData ! i) col"
    using assms(2) by (simp add: row_get_process_row)
  show ?thesis
    using assms(3) coerce_number_is_number [of "row_get (tableData ! i) col"]
    by (auto simp: cell process_cell_def)
qed

theorem processTableData_number_column_witness:
  "dict_get [(''a'', TNumber)] ''a'' = Some TNumber
   \<and> row_get [(''_id'', Num (Fin 3)), (''a'', Num (Fin 0))] ''a'' = Num (Fin 0)
   \<and> (\<exists>n. row_get [(''_id'', Num (Fin 1)), (''a'', Num (Fin 2))] ''a'' = Num n \<and> n \<noteq> NaN)
   \<and> row_get [(''_id'', Num (Fin 4)), (''a'', Null)] ''a'' = Null"
  using processTableData_number_column [OF process_mixed_table, of "''a''" 3]
    processTableData_number_column [OF process_mixed_table, of "''a''" 1]
    processTableData_number_column [OF process_mixed_table, of "''a''" 4]
  by (simp add: dict_get_def row_get_def num_eval)

text \<open>
  The claim as stated fails on that table: column \<open>a\<close> is classified as number and its
  cell in the fifth row is still null after type processing.
\<close>

theorem number_column_keeps_null_counterexample:
  "dict_get (snd (processTableData (\<lambda>s. False)
     [[(''_id'', Num (Fin 0)), (''a'', Str ''1'')],
      [(''_id'', Num (Fin 1)), (''a'', Str ''2'')],
      [(''_id'', Num (Fin 2)), (''a'', Str ''3'')],
      [(''_id'', Num (Fin 3)), (''a'', Str ''n/a'')],
      [(''_id'', Num (Fin 4)), (''a'', Null)]] [''a''])) ''a'' = Some TNumber
   \<and> row_get (fst (processTableData (\<lambda>s. False)
     [[(''_id'', Num (Fin 0)), (''a'', Str ''1'')],
      [(''_id'', Num (Fin 1)), (''a'', Str ''2'')],
      [(''_id'', Num (Fin 2)), (''a'', Str ''3'')],
      [(''_id'', Num (Fin 3)), (''a'', Str ''n/a'')],
      [(''_id'', Num (Fin 4)), (''a'', Null)]] [''a'']) ! 4) ''a'' = Null"
  by (simp add: process_mixed_table dict_get_def row_get_def)

subsection \<open>Switching the active table\<close>

text \<open>
  Claim C9, as the code has it.  The claim says that every component of the query
  state is reset when the active table changes.  \<open>switchTable\<close> changes the active
  table only for a table that exists and has a row; it then resets the per-column
  filters, the selected category, the sort key and direction and the calculated
  columns, and recomputes the columns and their types.  It has no assignment to the
  group-by column, the aggregation mode, the top-N limit or the drill-down cursor,
  which keep their values.
\<close>

theorem switchTable_resets:
  assumes "dict_get (tables st) tableName = Some tableData"
    and "tableData \<noteq> []"
  shows "activeTable (switchTable dp st tableName) = tableName
       \<and> columns (switchTable dp st tableName) = table_columns tableData
       \<and> columnTypes (switchTable dp st tableName) = column_types dp tableData (table_columns tableData)
       \<and> filters (switchTable dp st tableName) = []
       \<and> selectedCategory (switchTable dp st tableName) = ''all''
       \<and> sortConfig (switchTable dp st tableName) = \<lparr>key = None, direction = Asc\<rparr>
       \<and> calculatedColumns (switchTable dp st tableName) = []
       \<and> groupByColumn (switchTable dp st tableName) = groupByColumn st
       \<and> aggregationType (switchTable dp st tableName) = aggregationType st
       \<and> topN (switchTable dp st tableName) = topN st
       \<and> drilldown (switchTable dp st tableName) = drilldown st
       \<and> tables (switchTable dp st tableName) = tables st"
  using assms by (simp add: switchTable_def Let_def)

theorem switchTable_resets_witness:
  "dict_get (tables (initial_state\<lparr>tables := [(''t'', [[(''_id'', Num (Fin 0)), (''a'', Str ''x'')]])],
        filters := [(''a'', ''x'')], topN := 5\<rparr>)) ''t''
     = Some [[(''_id'', Num (Fin 0)), (''a'', Str ''x'')]]
   \<and> filters (switchTable (\<lambda>s. False)
        (initial_state\<lparr>tables := [(''t'', [[(''_id'', Num (Fin 0)), (''a'', Str ''x'')]])],
        filters := [(''a'', ''x'')], topN := 5\<rparr>) ''t'') = []
   \<and> topN (switchTable (\<lambda>s. False)
        (initial_state\<lparr>tables := [(''t'', [[(''_id'', Num (Fin 0)), (''a'', Str ''x'')]])],
        filters := [(''a'', ''x'')], topN := 5\<rparr>) ''t'') = 5"
  using switchTable_resets [of
      "initial_state\<lparr>tables := [(''t'', [[(''_id'', Num (Fin 0)), (''a'', Str ''x'')]])],
        filters := [(''a'', ''x'')], topN := 5\<rparr>"
      "''t''" "[[(''_id'', Num (Fin 0)), (''a'', Str ''x'')]]" "\<lambda>s. False"]
  by (simp add: dict_get_def)

text \<open>
  The claim as stated fails: with the top-N limit set to 5 and the aggregation mode
  set to count, switching to the table \<open>t\<close> makes \<open>t\<close> the active table and leaves
  both at values that are not the defaults 10 and sum.
\<close>

theorem switchTable_keeps_topN_counterexample:
  "activeTable (switchTable (\<lambda>s. False)
        (initial_state\<lparr>tables := [(''t'', [[(''_id'', Num (Fin 0)), (''a'', Str ''x'')]])],
           aggregationType := Count, topN := 5\<rparr>) ''t'') = ''t''
   \<and> topN (switchTable (\<lambda>s. False)
        (initial_state\<lparr>tables := [(''t'', [[(''_id'', Num (Fin 0)), (''a'', Str ''x'')]])],
           aggregationType := Count, topN := 5\<rparr>) ''t'') \<noteq> topN initial_state
   \<and> aggregationType (switchTable (\<lambda>s. False)
        (initial_state\<lparr>tables := [(''t'', [[(''_id'', Num (Fin 0)), (''a'', Str ''x'')]])],
           aggregationType := Count, topN := 5\<rparr>) ''t'') \<noteq> aggregationType initial_state"
  by (simp add: switchTable_def dict_get_def initial_state_def Let_def)

subsection \<open>The relational join\<close>

lemma dict_get_assign_all:
  "dict_get (assign_all d kvs) k =
     (case map_of (rev kvs) k of Some v \<Rightarrow> Some v | None \<Rightarrow> dict_get d k)"
  unfolding assign_all_def
  by (induction kvs arbitrary: d rule: rev_induct) (auto simp: dict_get_set split: option.splits)

lemma dict_get_Nil: "dict_get [] k = None"
  by (simp add: dict_get_def)

lemma dict_get_build_map_None:
  "dict_get (build_map rows) k = None \<longleftrightarrow> (\<forall>r \<in> set rows. js_String (row_get r ''id'') \<noteq> k)"
  unfolding build_map_def
  by (induction rows rule: rev_induct) (auto simp: dict_get_set dict_get_Nil)

lemma dict_get_build_map_Some:
  "dict_get (build_map rows) k = Some c \<Longrightarrow> c \<in> set rows \<and> js_String (row_get c ''id'') = k"
  unfolding build_map_def
  by (induction rows rule: rev_induct) (auto simp: dict_get_set dict_get_Nil split: if_splits)

lemma lookup_both_None:
  "lookup_both (build_map rows) v = None \<longleftrightarrow> (\<forall>r \<in> set rows. \<not> id_matches v (row_get r ''id''))"
proof -
  have "lookup_both (build_map rows) v = dict_get (build_map rows) (js_String v)"
    by (simp add: lookup_both_def split: option.splits)
  then show ?thesis
    by (simp add: dict_get_build_map_None id_matches_def) metis
qed

lemma lookup_both_Some:
  "lookup_both (build_map rows) v = Some c \<Longrightarrow> c \<in> set rows \<and> id_matches v (row_get c ''id'')"
  by (auto simp: lookup_both_def id_matches_def split: option.splits dest: dict_get_build_map_Some)

lemma joinedData_foldl:
  "joinedData (foldl (join_step cm pm) st xs) = joinedData st @ map (joined_row cm pm) xs"
  by (induction xs arbitrary: st) (simp_all add: join_step_def Let_def)

lemma matchedCards_foldl:
  "matchedCards (foldl (join_step cm pm) st xs) =
     matchedCards st + length (filter (\<lambda>p. txn_card cm (snd p) \<noteq> []) xs)"
  by (induction xs arbitrary: st) (simp_all add: join_step_def Let_def object_keys_def)

lemma unmatched_foldl_set:
  "set (unmatchedCardIds (foldl (join_step cm pm) st xs)) =
     set (unmatchedCardIds st) \<union>
     (\<lambda>p. row_get (snd p) ''card_id'') ` {p \<in> set xs. txn_card cm (snd p) = []}"
  by (induction xs arbitrary: st) (auto simp: join_step_def Let_def object_keys_def set_add_def)

lemma unmatched_foldl_distinct:
  "distinct (unmatchedCardIds st) \<Longrightarrow> distinct (unmatchedCardIds (foldl (join_step cm pm) st xs))"
  by (induction xs arbitrary: st) (auto simp: join_step_def Let_def set_add_def)

lemma count_list_distinct:
  "distinct xs \<Longrightarrow> x \<in> set xs \<Longrightarrow> count_list xs x = 1"
  by (induction xs) auto


lemma map_of_rev_distinct:
  "distinct (map fst xs) \<Longrightarrow> map_of (rev xs) k = map_of xs k"
  by (induction xs) (auto simp: map_add_def split: option.splits dest: map_of_SomeD
      intro: rev_image_eqI)

lemma join_tables_joinedData:
  "joinedData (join_tables transactions cards card_programs) =
     map (joined_row (build_map cards) (build_map card_programs)) (enumerate 0 transactions)"
  by (simp add: join_tables_def joinedData_foldl)

lemma row_get_Nil: "row_get [] k = Undefined"
  by (simp add: row_get_def dict_get_Nil)

lemma row_get_assign_all:
  "row_get (assign_all [] kvs) k = (case map_of (rev kvs) k of Some v \<Rightarrow> v | None \<Rightarrow> Undefined)"
  by (simp add: row_get_def dict_get_assign_all dict_get_Nil split: option.splits)

lemma joined_row_program_id:
  "row_get (joined_row cm pm p) ''card_program_id'' = row_get (txn_card cm (snd p)) ''card_program_id''"
  by (simp add: joined_row_def Let_def row_get_assign_all)

lemma joined_row_program_name:
  "row_get (joined_row cm pm p) ''card_program_name'' =
     program_name (card_program pm (txn_card cm (snd p)))
       (row_get (txn_card cm (snd p)) ''card_program_id'')"
  by (simp add: joined_row_def Let_def row_get_assign_all)

lemma joined_row_other:
  assumes "distinct (map fst (snd p))"
    and "k \<noteq> ''_id''" and "k \<noteq> ''card_program_id''" and "k \<noteq> ''card_program_name''"
  shows "row_get (joined_row cm pm p) k = row_get (snd p) k"
proof -
  have "row_get (joined_row cm pm p) k =
      (case map_of (rev (snd p)) k of Some v \<Rightarrow> v | None \<Rightarrow> Undefined)"
    using assms(2-4)
    by (simp add: joined_row_def Let_def row_get_assign_all map_add_def split: option.splits)
  also have "\<dots> = row_get (snd p) k"
    using assms(1) by (simp add: row_get_def dict_get_def map_of_rev_distinct)
  finally show ?thesis .
qed

text \<open>
  Claim C4.  A transaction whose \<open>card_id\<close> has no matching card row, that is, whose
  key is the key of no card, is kept: the joined relation has one row for every
  transaction, at the position of the transaction, and the row of this transaction
  carries \<open>card_program_id = undefined\<close> and \<open>card_program_name = "Unknown Program"\<close>
  and, apart from \<open>_id\<close> and these two fields, the fields of the transaction.  Its
  \<open>card_id\<close> occurs exactly once in the set of unmatched identifiers, however many
  transactions share it.  The function has no failing branch.  (An object has every
  key once, which is the hypothesis on the keys of the transaction.)
\<close>

theorem join_unmatched_transaction:
  assumes "i < length transactions"
    and "distinct (map fst (transactions ! i))"
    and "\<forall>c \<in> set cards. \<not> id_matches (row_get (transactions ! i) ''card_id'') (row_get c ''id'')"
  shows "length (joinedData (join_tables transactions cards card_programs)) = length transactions
       \<and> row_get (joinedData (join_tables transactions cards card_programs) ! i) ''card_program_id'' = Undefined
       \<and> row_get (joinedData (join_tables transactions cards card_programs) ! i) ''card_program_name''
            = Str ''Unknown Program''
       \<and> (\<forall>k. k \<noteq> ''_id'' \<and> k \<noteq> ''card_program_id'' \<and> k \<noteq> ''card_program_name'' \<longrightarrow>
            row_get (joinedData (join_tables transactions cards card_programs) ! i) k
              = row_get (transactions ! i) k)
       \<and> count_list (unmatchedCardIds (join_tables transactions cards card_programs))
            (row_get (transactions ! i) ''card_id'') = 1"
proof -
  let ?cm = "build_map cards" and ?pm = "build_map card_programs"
  let ?J = "join_tables transactions cards card_programs"
  let ?t = "transactions ! i"
  have nocard: "txn_card ?cm ?t = []"
    using assms(3) lookup_both_None [of cards "row_get ?t ''card_id''"]
    by (simp add: txn_card_def)
  have row: "joinedData ?J ! i = joined_row ?cm ?pm (i, ?t)"
    using assms(1) by (simp add: join_tables_joinedData nth_enumerate_eq)
  have len: "length (joinedData ?J) = length transactions"
    by (simp add: join_tables_joinedData)
  have pid: "row_get (joinedData ?J ! i) ''card_program_id'' = Undefined"
    by (simp add: row joined_row_program_id nocard row_get_Nil)
  have pname: "row_get (joinedData ?J ! i) ''card_program_name'' = Str ''Unknown Program''"
    by (simp add: row joined_row_program_name nocard row_get_Nil card_program_def program_name_def)
  have other: "\<forall>k. k \<noteq> ''_id'' \<and> k \<noteq> ''card_program_id'' \<and> k \<noteq> ''card_program_name'' \<longrightarrow>
      row_get (joinedData ?J ! i) k = row_get ?t k"
    using assms(2) by (simp add: row joined_row_other)
  have "(i, ?t) \<in> set (enumerate 0 transactions)"
    using assms(1) by (auto simp: in_set_enumerate_eq)
  then have mem: "row_get ?t ''card_id'' \<in> set (unmatchedCardIds ?J)"
    using nocard by (force simp: join_tables_def unmatched_foldl_set)
  have "distinct (unmatchedCardIds ?J)"
    by (simp add: join_tables_def unmatched_foldl_distinct)
  then have once: "count_list (unmatchedCardIds ?J) (row_get ?t ''card_id'') = 1"
    using mem by (rule count_list_distinct)
  show ?thesis
    using len pid pname other once by blast
qed

lemma program_name_known:
  assumes "programId \<noteq> Null" and "programId \<noteq> Undefined"
    and "\<And>p. program = Some p \<Longrightarrow>
           js_or (row_get p ''display_name'') (row_get p ''name'') \<noteq> Str ''Unknown Program''"
  shows "program_name program programId \<noteq> Str ''Unknown Program''"
  using assms by (cases program) (auto simp: program_name_def)

text \<open>
  Claim C3, as the code has it.  The claim says that when every transaction finds its
  card and every card its program, all transactions are counted as matched and no
  joined row is named \<open>Unknown Program\<close>.  The count holds.  The name is the
  placeholder exactly when the program identifier of the card is null or undefined
  (by the test \<open>programId !== undefined && programId !== null\<close>), and a program can
  carry that name itself.  What holds: if moreover no card has a null or undefined
  program identifier and no program is named \<open>Unknown Program\<close>, no joined row has
  that name.  Every card row has a field, as all processed rows carry \<open>_id\<close>.
\<close>

theorem join_complete:
  assumes "\<forall>c \<in> set cards. c \<noteq> []"
    and "\<forall>t \<in> set transactions. \<exists>c \<in> set cards. id_matches (row_get t ''card_id'') (row_get c ''id'')"
    and "\<forall>c \<in> set cards. \<exists>p \<in> set card_programs.
           id_matches (row_get c ''card_program_id'') (row_get p ''id'')"
    and "\<forall>c \<in> set cards. row_get c ''card_program_id'' \<noteq> Null \<and> row_get c ''card_program_id'' \<noteq> Undefined"
    and "\<forall>p \<in> set card_programs.
           js_or (row_get p ''display_name'') (row_get p ''name'') \<noteq> Str ''Unknown Program''"
  shows "matchedCards (join_tables transactions cards card_programs) = length transactions
       \<and> (\<forall>r \<in> set (joinedData (join_tables transactions cards card_programs)).
            row_get r ''card_program_name'' \<noteq> Str ''Unknown Program'')"
proof -
  let ?cm = "build_map cards" and ?pm = "build_map card_programs"
  have found: "txn_card ?cm t \<in> set cards" if "t \<in> set transactions" for t
  proof -
    have "lookup_both ?cm (row_get t ''card_id'') \<noteq> None"
      using assms(2) that by (simp add: lookup_both_None)
    then obtain c where c: "lookup_both ?cm (row_get t ''card_id'') = Some c"
      by blast
    then show ?thesis
      using lookup_both_Some [OF c] by (simp add: txn_card_def)
  qed
  have "filter (\<lambda>p. txn_card ?cm (snd p) \<noteq> []) (enumerate 0 transactions) = enumerate 0 transactions"
    using found assms(1) by (auto simp: filter_id_conv in_set_enumerate_eq)
  then have cnt: "matchedCards (join_tables transactions cards card_programs) = length transactions"
    by (simp add: join_tables_def matchedCards_foldl)
  have names: "row_get r ''card_program_name'' \<noteq> Str ''Unknown Program''"
    if "r \<in> set (joinedData (join_tables transactions cards card_programs))" for r
  proof -
    have "r \<in> joined_row ?cm ?pm ` set (enumerate 0 transactions)"
      using that by (simp add: join_tables_joinedData)
    then obtain p where p: "p \<in> set (enumerate 0 transactions)" and r: "r = joined_row ?cm ?pm p"
      by blast
    have "(fst p, snd p) \<in> set (enumerate 0 transactions)"
      using p by simp
    then have "fst p < length transactions \<and> transactions ! fst p = snd p"
      by (simp only: in_set_enumerate_eq) simp
    then have "snd p \<in> set transactions"
      using nth_mem [of "fst p" transactions] by simp
    then have c: "txn_card ?cm (snd p) \<in> set cards"
      by (rule found)
    have prog: "js_or (row_get q ''display_name'') (row_get q ''name'') \<noteq> Str ''Unknown Program''"
      if "card_program ?pm (txn_card ?cm (snd p)) = Some q" for q
    proof -
      have "q \<in> set card_programs"
        using that lookup_both_Some [of card_programs _ q]
        by (auto simp: card_program_def split: if_splits)
      then show ?thesis using assms(5) by blast
    qed
    show ?thesis
      unfolding r joined_row_program_name
      using c assms(4) prog by (intro program_name_known) auto
  qed
  show ?thesis using cnt names by blast
qed

subsection \<open>The join on concrete tables\<close>

lemmas str_eval = pos_to_string_def digit_char_def digits_of_int.simps

lemmas dict_eval = row_get_def dict_get_def dict_set_def is_array_index_def is_digit_def
  digits_val_def digit_val_def

lemmas join_eval = join_step_def joined_row_def txn_card_def card_program_def program_name_def
  lookup_both_def js_or_def assign_all_def set_add_def object_keys_def enumerate_eq_zip Let_def

lemma build_map_one_card:
  "build_map [[(''_id'', Num (Fin 0)), (''id'', Num (Fin 1)), (''card_program_id'', Num (Fin 10))]]
   = [(''1'', [(''_id'', Num (Fin 0)), (''id'', Num (Fin 1)), (''card_program_id'', Num (Fin 10))])]"
  by (simp add: build_map_def dict_eval str_eval)

lemma build_map_travel:
  "build_map [[(''_id'', Num (Fin 0)), (''id'', Num (Fin 10)), (''name'', Str ''Travel'')]]
   = [(''10'', [(''_id'', Num (Fin 0)), (''id'', Num (Fin 10)), (''name'', Str ''Travel'')])]"
  by (simp add: build_map_def dict_eval str_eval)

text \<open>
  The scenario of the specification, with a third transaction that shares the unknown
  card 2: one card of program 10, the program Travel, and transactions on the cards
  1, 2 and 2.
\<close>

lemma join_scenario:
  "join_tables
     [[(''_id'', Num (Fin 0)), (''id'', Num (Fin 1)), (''card_id'', Num (Fin 1)), (''amount'', Num (Fin 50))],
      [(''_id'', Num (Fin 1)), (''id'', Num (Fin 2)), (''card_id'', Num (Fin 2)), (''amount'', Num (Fin 25))],
      [(''_id'', Num (Fin 2)), (''id'', Num (Fin 3)), (''card_id'', Num (Fin 2)), (''amount'', Num (Fin 12))]]
     [[(''_id'', Num (Fin 0)), (''id'', Num (Fin 1)), (''card_program_id'', Num (Fin 10))]]
     [[(''_id'', Num (Fin 0)), (''id'', Num (Fin 10)), (''name'', Str ''Travel'')]]
   = \<lparr>joinedData =
        [[(''_id'', Num (Fin 0)), (''id'', Num (Fin 1)), (''card_id'', Num (Fin 1)), (''amount'', Num (Fin 50)),
          (''card_program_id'', Num (Fin 10)), (''card_program_name'', Str ''Travel'')],
         [(''_id'', Num (Fin 1)), (''id'', Num (Fin 2)), (''card_id'', Num (Fin 2)), (''amount'', Num (Fin 25)),
          (''card_program_id'', Undefined), (''card_program_name'', Str ''Unknown Program'')],
         [(''_id'', Num (Fin 2)), (''id'', Num (Fin 3)), (''card_id'', Num (Fin 2)), (''amount'', Num (Fin 12)),
          (''card_program_id'', Undefined), (''card_program_name'', Str ''Unknown Program'')]],
      matchedCards = 1, matchedPrograms = 1, unmatchedCardIds = [Num (Fin 2)]\<rparr>"
  by (simp add: join_tables_def build_map_one_card build_map_travel join_eval dict_eval str_eval)

theorem join_unmatched_transaction_witness:
  "list_all (\<lambda>c. \<not> id_matches (Num (Fin 2)) (row_get c ''id''))
     [[(''_id'', Num (Fin 0)), (''id'', Num (Fin 1)), (''card_program_id'', Num (Fin 10))]]
   \<and> length (joinedData (join_tables
     [[(''_id'', Num (Fin 0)), (''id'', Num (Fin 1)), (''card_id'', Num (Fin 1)), (''amount'', Num (Fin 50))],
      [(''_id'', Num (Fin 1)), (''id'', Num (Fin 2)), (''card_id'', Num (Fin 2)), (''amount'', Num (Fin 25))],
      [(''_id'', Num (Fin 2)), (''id'', Num (Fin 3)), (''card_id'', Num (Fin 2)), (''amount'', Num (Fin 12))]]
     [[(''_id'', Num (Fin 0)), (''id'', Num (Fin 1)), (''card_program_id'', Num (Fin 10))]]
     [[(''_id'', Num (Fin 0)), (''id'', Num (Fin 10)), (''name'', Str ''Travel'')]])) = 3
   \<and> row_get (joinedData (join_tables
     [[(''_id'', Num (Fin 0)), (''id'', Num (Fin 1)), (''card_id'', Num (Fin 1)), (''amount'', Num (Fin 50))],
      [(''_id'', Num (Fin 1)), (''id'', Num (Fin 2)), (''card_id'', Num (Fin 2)), (''amount'', Num (Fin 25))],
      [(''_id'', Num (Fin 2)), (''id'', Num (Fin 3)), (''card_id'', Num (Fin 2)), (''amount'', Num (Fin 12))]]
     [[(''_id'', Num (Fin 0)), (''id'', Num (Fin 1)), (''card_program_id'', Num (Fin 10))]]
     [[(''_id'', Num (Fin 0)), (''id'', Num (Fin 10)), (''name'', Str ''Travel'')]]) ! 2) ''card_program_name''
       = Str ''Unknown Program''
   \<and> count_list (unmatchedCardIds (join_tables
     [[(''_id'', Num (Fin 0)), (''id'', Num (Fin 1)), (''card_id'', Num (Fin 1)), (''amount'', Num (Fin 50))],
      [(''_id'', Num (Fin 1)), (''id'', Num (Fin 2)), (''card_id'', Num (Fin 2)), (''amount'', Num (Fin 25))],
      [(''_id'', Num (Fin 2)), (''id'', Num (Fin 3)), (''card_id'', Num (Fin 2)), (''amount'', Num (Fin 12))]]
     [[(''_id'', Num (Fin 0)), (''id'', Num (Fin 1)), (''card_program_id'', Num (Fin 10))]]
     [[(''_id'', Num (Fin 0)), (''id'', Num (Fin 10)), (''name'', Str ''Travel'')]])) (Num (Fin 2)) = 1"
  using join_unmatched_transaction [of 2
     "[[(''_id'', Num (Fin 0)), (''id'', Num (Fin 1)), (''card_id'', Num (Fin 1)), (''amount'', Num (Fin 50))],
      [(''_id'', Num (Fin 1)), (''id'', Num (Fin 2)), (''card_id'', Num (Fin 2)), (''amount'', Num (Fin 25))],
      [(''_id'', Num (Fin 2)), (''id'', Num (Fin 3)), (''card_id'', Num (Fin 2)), (''amount'', Num (Fin 12))]]"
     "[[(''_id'', Num (Fin 0)), (''id'', Num (Fin 1)), (''card_program_id'', Num (Fin 10))]]"
     "[[(''_id'', Num (Fin 0)), (''id'', Num (Fin 10)), (''name'', Str ''Travel'')]]"]
  by (simp add: id_matches_def dict_eval str_eval)

text \<open>
  Two tables on which the hypotheses of claim C3 hold and its conclusion fails.  In
  the first the program of the only card is itself named \<open>Unknown Program\<close>.  In the
  second the card has a null program identifier, which the null identifier of a
  program row matches; the code gives the placeholder name to a card without a
  program identifier.
\<close>

theorem join_complete_counterexample:
  "list_all (\<lambda>t. list_ex (\<lambda>c. row_get t ''card_id'' = row_get c ''id'')
       [[(''_id'', Num (Fin 0)), (''id'', Num (Fin 1)), (''card_program_id'', Num (Fin 10))]])
     [[(''_id'', Num (Fin 0)), (''card_id'', Num (Fin 1))]]
   \<and> list_all (\<lambda>c. list_ex (\<lambda>p. row_get c ''card_program_id'' = row_get p ''id'')
       [[(''_id'', Num (Fin 0)), (''id'', Num (Fin 10)), (''name'', Str ''Unknown Program'')]])
     [[(''_id'', Num (Fin 0)), (''id'', Num (Fin 1)), (''card_program_id'', Num (Fin 10))]]
   \<and> row_get (joinedData (join_tables
       [[(''_id'', Num (Fin 0)), (''card_id'', Num (Fin 1))]]
       [[(''_id'', Num (Fin 0)), (''id'', Num (Fin 1)), (''card_program_id'', Num (Fin 10))]]
       [[(''_id'', Num (Fin 0)), (''id'', Num (Fin 10)), (''name'', Str ''Unknown Program'')]]) ! 0)
         ''card_program_name'' = Str ''Unknown Program''
   \<and> list_all (\<lambda>c. list_ex (\<lambda>p. row_get c ''card_program_id'' = row_get p ''id'')
       [[(''_id'', Num (Fin 0)), (''id'', Null), (''name'', Str ''Travel'')]])
     [[(''_id'', Num (Fin 0)), (''id'', Num (Fin 1)), (''card_program_id'', Null)]]
   \<and> row_get (joinedData (join_tables
       [[(''_id'', Num (Fin 0)), (''card_id'', Num (Fin 1))]]
       [[(''_id'', Num (Fin 0)), (''id'', Num (Fin 1)), (''card_program_id'', Null)]]
       [[(''_id'', Num (Fin 0)), (''id'', Null), (''name'', Str ''Travel'')]]) ! 0)
         ''card_program_name'' = Str ''Unknown Program''"
  by (simp add: join_tables_joinedData joined_row_def assign_all_def Let_def txn_card_def
      card_program_def program_name_def lookup_both_def js_or_def build_map_def dict_eval
      str_eval enumerate_eq_zip)

theorem join_complete_witness:
  "list_all (\<lambda>c. c \<noteq> [])
     [[(''_id'', Num (Fin 0)), (''id'', Num (Fin 1)), (''card_program_id'', Num (Fin 10))]]
   \<and> list_all (\<lambda>t. list_ex (\<lambda>c. id_matches (row_get t ''card_id'') (row_get c ''id''))
        [[(''_id'', Num (Fin 0)), (''id'', Num (Fin 1)), (''card_program_id'', Num (Fin 10))]])
     [[(''_id'', Num (Fin 0)), (''card_id'', Num (Fin 1))], [(''_id'', Num (Fin 1)), (''card_id'', Str ''1'')]]
   \<and> matchedCards (join_tables
       [[(''_id'', Num (Fin 0)), (''card_id'', Num (Fin 1))], [(''_id'', Num (Fin 1)), (''card_id'', Str ''1'')]]
       [[(''_id'', Num (Fin 0)), (''id'', Num (Fin 1)), (''card_program_id'', Num (Fin 10))]]
       [[(''_id'', Num (Fin 0)), (''id'', Num (Fin 10)), (''name'', Str ''Travel'')]]) = 2
   \<and> list_all (\<lambda>r. row_get r ''card_program_name'' \<noteq> Str ''Unknown Program'')
       (joinedData (join_tables
       [[(''_id'', Num (Fin 0)), (''card_id'', Num (Fin 1))], [(''_id'', Num (Fin 1)), (''card_id'', Str ''1'')]]
       [[(''_id'', Num (Fin 0)), (''id'', Num (Fin 1)), (''card_program_id'', Num (Fin 10))]]
       [[(''_id'', Num (Fin 0)), (''id'', Num (Fin 10)), (''name'', Str ''Travel'')]]))"
  using join_complete [of
       "[[(''_id'', Num (Fin 0)), (''id'', Num (Fin 1)), (''card_program_id'', Num (Fin 10))]]"
       "[[(''_id'', Num (Fin 0)), (''card_id'', Num (Fin 1))], [(''_id'', Num (Fin 1)), (''card_id'', Str ''1'')]]"
       "[[(''_id'', Num (Fin 0)), (''id'', Num (Fin 10)), (''name'', Str ''Travel'')]]"]
  by (simp add: id_matches_def js_or_def dict_eval str_eval list_all_iff)

subsection \<open>The comparison functions of the sorts\<close>

text \<open>
  Claim C6 on the code.  The claim says that the sort of the query pipeline and the
  sorts of the card and program summaries compare alike, without regard to case and
  with null last.  The comparison of \<open>filteredData\<close> puts null last and does not
  lower the case: ascending, \<open>"B"\<close> comes before \<open>"a"\<close>.  The comparison of the
  summaries lowers the case and has no test for null: ascending, a null \<open>card_id\<close>
  comes before the card 5.  On the same pairs the two functions give opposite
  answers.
\<close>

theorem sort_rules_disagree:
  "filtered_compare [] ''name'' Asc [(''name'', Str ''B'')] [(''name'', Str ''a'')] = - 1
   \<and> sort_filtered [] \<lparr>key = Some ''name'', direction = Asc\<rparr>
        [[(''name'', Str ''a'')], [(''name'', Str ''B'')]]
       = [[(''name'', Str ''B'')], [(''name'', Str ''a'')]]
   \<and> summary_compare ''name'' Asc [(''name'', Str ''B'')] [(''name'', Str ''a'')] = 1
   \<and> summary_compare ''card_id'' Asc [(''card_id'', Null)] [(''card_id'', Num (Fin 5))] = - 1
   \<and> sort_summaries ''card_id'' Asc [[(''card_id'', Num (Fin 5))], [(''card_id'', Null)]]
       = [[(''card_id'', Null)], [(''card_id'', Num (Fin 5))]]
   \<and> filtered_compare [] ''card_id'' Asc [(''card_id'', Null)] [(''card_id'', Num (Fin 5))] = 1"
  by (simp add: filtered_compare_def sort_filtered_def summary_compare_def sort_summaries_def
      sort_value_def row_get_def dict_get_def js_sort_def toLowerCase_def lower_char_def is_upper_def)

subsection \<open>Grouping totals\<close>

lemma insert_index_split:
  "\<exists>xs ys. d = xs @ ys \<and> insert_index k v d = xs @ (k, v) # ys"
proof (induction d)
  case Nil
  then show ?case by simp
next
  case (Cons p d)
  then obtain xs ys where s: "d = xs @ ys" "insert_index k v d = xs @ (k, v) # ys"
    by blast
  obtain a b where p: "p = (a, b)" by (cases p)
  show ?case
  proof (cases "is_array_index a \<and> digits_val a < digits_val k")
    case True
    then have "p # d = (p # xs) @ ys \<and> insert_index k v (p # d) = (p # xs) @ (k, v) # ys"
      using s p by simp
    then show ?thesis by blast
  next
    case False
    then have "insert_index k v (p # d) = (k, v) # p # d"
      by (simp only: p insert_index.simps if_False)
    then have "p # d = [] @ (p # d) \<and> insert_index k v (p # d) = [] @ (k, v) # (p # d)"
      by simp
    then show ?thesis by blast
  qed
qed

lemma map_fst_replace:
  "map fst (map (\<lambda>(a, b). if a = k then (a, f b) else (a, b)) d) = map fst d"
  by (induction d) (simp_all add: case_prod_beta)

lemma dict_set_cases:
  "(k \<in> fst ` set d \<and> map fst (dict_set k v d) = map fst d)
   \<or> (k \<notin> fst ` set d \<and> (\<exists>xs ys. d = xs @ ys \<and> dict_set k v d = xs @ (k, v) # ys))"
proof (cases "k \<in> fst ` set d")
  case True
  then show ?thesis
    using map_fst_replace [of k "\<lambda>_. v" d] by (simp add: dict_set_def)
next
  case False
  show ?thesis
  proof (cases "is_array_index k")
    case True
    then show ?thesis
      using False insert_index_split [of d k v] by (simp add: dict_set_def)
  next
    case ni: False
    have "d = d @ [] \<and> dict_set k v d = d @ (k, v) # []"
      using False ni by (simp add: dict_set_def)
    then show ?thesis using False by blast
  qed
qed

lemma keys_middle: "fst ` set (xs @ (k, v) # ys) = insert k (fst ` set (xs @ ys))"
  by auto

lemma set_keys_dict_set:
  "fst ` set (dict_set k v d) = insert k (fst ` set d)"
proof -
  from dict_set_cases [of k d v] show ?thesis
  proof
    assume a: "k \<in> fst ` set d \<and> map fst (dict_set k v d) = map fst d"
    then have "set (map fst (dict_set k v d)) = set (map fst d)" by simp
    then have "fst ` set (dict_set k v d) = fst ` set d" by (simp only: set_map)
    then show ?thesis using a by (simp add: insert_absorb)
  next
    assume "k \<notin> fst ` set d \<and> (\<exists>xs ys. d = xs @ ys \<and> dict_set k v d = xs @ (k, v) # ys)"
    then obtain xs ys where s: "d = xs @ ys" "dict_set k v d = xs @ (k, v) # ys" by blast
    have "fst ` set (dict_set k v d) = fst ` set (xs @ (k, v) # ys)"
      by (simp only: s(2))
    also have "\<dots> = insert k (fst ` set (xs @ ys))"
      by (rule keys_middle)
    finally show ?thesis by (simp only: s(1))
  qed
qed

lemma distinct_dict_set:
  assumes "distinct (map fst d)"
  shows "distinct (map fst (dict_set k v d))"
proof -
  from dict_set_cases [of k d v] show ?thesis
  proof
    assume "k \<in> fst ` set d \<and> map fst (dict_set k v d) = map fst d"
    then show ?thesis using assms by simp
  next
    assume a: "k \<notin> fst ` set d \<and> (\<exists>xs ys. d = xs @ ys \<and> dict_set k v d = xs @ (k, v) # ys)"
    then obtain xs ys where s: "d = xs @ ys" "dict_set k v d = xs @ (k, v) # ys" by blast
    have "k \<notin> fst ` set xs" "k \<notin> fst ` set ys" using a s(1) by auto
    then show ?thesis using assms s by auto
  qed
qed


lemma distinct_dict_modify:
  "distinct (map fst d) \<Longrightarrow> distinct (map fst (dict_modify k f d))"
  by (simp only: dict_modify_def map_fst_replace)

lemma keys_dict_modify: "fst ` set (dict_modify k f d) = fst ` set d"
proof -
  have "set (map fst (dict_modify k f d)) = set (map fst d)"
    by (simp only: dict_modify_def map_fst_replace)
  then show ?thesis by (simp only: set_map)
qed

lemma dict_modify_absent:
  "k \<notin> fst ` set d \<Longrightarrow> dict_modify k u d = d"
  by (induction d) (auto simp: dict_modify_def)

lemma sum_insert_by:
  fixes h :: "'v \<Rightarrow> 'a::comm_monoid_add"
  shows "sum_list (map h (insert_by cmp x ys)) = h x + sum_list (map h ys)"
  by (induction ys) (simp_all add: ac_simps)

lemma sum_js_sort:
  fixes h :: "'v \<Rightarrow> 'a::comm_monoid_add"
  shows "sum_list (map h (js_sort cmp xs)) = sum_list (map h xs)"
  by (induction xs) (simp_all add: js_sort_def sum_insert_by)

lemma set_insert_by: "set (insert_by cmp x ys) = insert x (set ys)"
  by (induction ys) auto

lemma set_js_sort: "set (js_sort cmp xs) = set xs"
  by (induction xs) (simp_all add: js_sort_def set_insert_by)

lemma dict_get_Some_key: "dict_get d k = Some g \<Longrightarrow> k \<in> fst ` set d"
  by (auto simp: dict_get_def dest: map_of_SomeD intro: rev_image_eqI)

lemma dict_get_None_key: "dict_get d k = None \<longleftrightarrow> k \<notin> fst ` set d"
  by (simp add: dict_get_def map_of_eq_None_iff)

lemma breakdown_step_inv:
  assumes "breakdown_inv bd"
  shows "breakdown_inv (breakdown_step catCol det calcs bd row)"
proof -
  let ?k = "js_String (row_get row catCol)"
  have set_ok: "breakdown_inv (dict_set ?k e bd)" if "?k \<notin> set object_prototype_names" for e
    using assms that by (simp add: breakdown_inv_def distinct_dict_set set_keys_dict_set)
  have mod_ok: "breakdown_inv (dict_modify ?k u d)" if "breakdown_inv d" for u d
    using that by (simp add: breakdown_inv_def distinct_dict_modify keys_dict_modify)
  show ?thesis
    unfolding breakdown_step_def Let_def
    using assms set_ok mod_ok by simp
qed

lemma breakdown_fold_inv:
  "breakdown_inv bd \<Longrightarrow> breakdown_inv (foldl (breakdown_step catCol det calcs) bd rows)"
  by (induction rows arbitrary: bd) (simp_all add: breakdown_step_inv)

lemma dict_modify_middle:
  assumes "k \<notin> fst ` set xs" and "k \<notin> fst ` set ys"
  shows "dict_modify k f (xs @ (k, g) # ys) = xs @ (k, f g) # ys"
  using dict_modify_absent [OF assms(1), of f] dict_modify_absent [OF assms(2), of f]
  by (simp add: dict_modify_def)

lemma breakdown_step_skip:
  "\<not> counted catCol row \<Longrightarrow> breakdown_step catCol det calcs bd row = bd"
  by (simp add: breakdown_step_def counted_def)

lemma breakdown_step_split:
  assumes inv: "breakdown_inv bd" and own: "own_key catCol row" and cnt: "counted catCol row"
  shows "\<exists>xs ys g. breakdown_step catCol det calcs bd row
                      = xs @ (js_String (row_get row catCol), accumulate det calcs row g) # ys
           \<and> (bd = xs @ (js_String (row_get row catCol), g) # ys
                \<or> (bd = xs @ ys \<and> g = new_group (js_String (row_get row catCol))))"
proof -
  let ?k = "js_String (row_get row catCol)"
  let ?f = "accumulate det calcs row"
  have np: "?k \<notin> set object_prototype_names" using own by (simp add: own_key_def)
  have t: "truthy (row_get row catCol)" using cnt by (simp add: counted_def)
  have d: "distinct (map fst bd)" using inv by (simp add: breakdown_inv_def)
  show ?thesis
  proof (cases "dict_get bd ?k")
    case None
    then have fresh: "?k \<notin> fst ` set bd" by (simp add: dict_get_None_key)
    with dict_set_cases [of ?k bd "new_group ?k"]
    obtain xs ys where s: "bd = xs @ ys" "dict_set ?k (new_group ?k) bd = xs @ (?k, new_group ?k) # ys"
      by blast
    have "?k \<notin> fst ` set xs" "?k \<notin> fst ` set ys" using fresh s(1) by auto
    then have "dict_modify ?k ?f (xs @ (?k, new_group ?k) # ys) = xs @ (?k, ?f (new_group ?k)) # ys"
      by (rule dict_modify_middle)
    then have "breakdown_step catCol det calcs bd row = xs @ (?k, ?f (new_group ?k)) # ys"
      using t None np s(2) by (simp add: breakdown_step_def Let_def)
    then show ?thesis using s(1) by blast
  next
    case (Some g)
    then have "(?k, g) \<in> set bd" by (simp add: dict_get_def map_of_SomeD)
    then obtain xs ys where s: "bd = xs @ (?k, g) # ys" by (auto dest: split_list)
    have "?k \<notin> fst ` set xs" "?k \<notin> fst ` set ys" using d s by auto
    then have "dict_modify ?k ?f (xs @ (?k, g) # ys) = xs @ (?k, ?f g) # ys"
      by (rule dict_modify_middle)
    then have "breakdown_step catCol det calcs bd row = xs @ (?k, ?f g) # ys"
      using t Some s by (simp add: breakdown_step_def Let_def)
    then show ?thesis using s by blast
  qed
qed

text \<open>The counts of the groups.\<close>

lemma breakdown_fold_count:
  assumes "list_all (own_key catCol) rows"
  shows "sum_list (map (\<lambda>p. count (snd p)) (foldl (breakdown_step catCol det calcs) [] rows))
         = length (filter (counted catCol) rows)"
  using assms
proof (induction rows rule: rev_induct)
  case Nil
  show ?case by simp
next
  case (snoc row rows)
  let ?bd = "foldl (breakdown_step catCol det calcs) [] rows"
  have ih: "sum_list (map (\<lambda>p. count (snd p)) ?bd) = length (filter (counted catCol) rows)"
    using snoc by simp
  have inv: "breakdown_inv ?bd"
    by (rule breakdown_fold_inv) (simp add: breakdown_inv_def)
  show ?case
  proof (cases "counted catCol row")
    case False
    then show ?thesis using ih by (simp add: breakdown_step_skip)
  next
    case True
    have own: "own_key catCol row" using snoc.prems by simp
    from breakdown_step_split [OF inv own True, of det calcs]
    obtain xs ys g where s: "breakdown_step catCol det calcs ?bd row
          = xs @ (js_String (row_get row catCol), accumulate det calcs row g) # ys"
      and c: "?bd = xs @ (js_String (row_get row catCol), g) # ys
              \<or> (?bd = xs @ ys \<and> g = new_group (js_String (row_get row catCol)))"
      by blast
    have "sum_list (map (\<lambda>p. count (snd p)) (xs @ (js_String (row_get row catCol), accumulate det calcs row g) # ys))
        = sum_list (map (\<lambda>p. count (snd p)) ?bd) + 1"
      using c by (auto simp: accumulate_def new_group_def)
    then show ?thesis using True ih s by simp
  qed
qed

text \<open>The two inequalities of the error analysis, for one step.\<close>

lemma error_step:
  fixes P u A c vg W E d :: rat
  assumes "1 \<le> P" and "0 \<le> u" and "0 \<le> A" and "0 \<le> c" and "0 \<le> vg" and "vg \<le> W"
    and "W \<le> P * A" and "E \<le> (P - 1) * A" and "d \<le> u * (vg + c)"
  shows "E + d \<le> ((1 + u) * P - 1) * (A + c)"
proof -
  have "vg \<le> P * A" using assms(6,7) by linarith
  then have a: "u * vg \<le> u * (P * A)" using assms(2) by (rule mult_left_mono)
  have "1 + u \<le> (1 + u) * P" using assms(1,2) by (simp add: mult_le_cancel_left1)
  then have "u \<le> (1 + u) * P - 1" by linarith
  then have b: "u * c \<le> ((1 + u) * P - 1) * c" using assms(4) by (rule mult_right_mono)
  have "E + d \<le> (P - 1) * A + u * vg + u * c" using assms(8,9) by (simp add: algebra_simps)
  also have "\<dots> \<le> (P - 1) * A + u * (P * A) + ((1 + u) * P - 1) * c" using a b by linarith
  also have "\<dots> = ((1 + u) * P - 1) * (A + c)" by (simp add: algebra_simps)
  finally show ?thesis .
qed

lemma abs_step:
  fixes P u A c vg W v' :: rat
  assumes "1 \<le> P" and "0 \<le> u" and "0 \<le> A" and "0 \<le> c" and "0 \<le> vg" and "vg \<le> W"
    and "W \<le> P * A" and "v' \<le> (1 + u) * (vg + c)"
  shows "W - vg + v' \<le> (1 + u) * P * (A + c)"
proof -
  have "u * vg \<le> u * W" using assms(6,2) by (rule mult_left_mono)
  then have "W - vg + v' \<le> (1 + u) * (W + c)" using assms(8) by (simp add: algebra_simps)
  also have "\<dots> \<le> (1 + u) * (P * A + P * c)"
  proof (rule mult_left_mono)
    have "c \<le> P * c" using assms(1,4) by (simp add: mult_le_cancel_right1)
    then show "W + c \<le> P * A + P * c" using assms(7) by linarith
    show "0 \<le> 1 + u" using assms(2) by simp
  qed
  also have "\<dots> = (1 + u) * P * (A + c)" by (simp add: algebra_simps)
  finally show ?thesis .
qed

lemma unit_roundoff_nonneg: "0 \<le> unit_roundoff"
  by (simp add: unit_roundoff_def)

lemma num_add_error:
  assumes "is_double a" and "is_double b" and "to_double (a + b) = Fin s"
  shows "\<bar>s - (a + b)\<bar> \<le> unit_roundoff * \<bar>a + b\<bar>"
  using to_double_sum_error [of a b s] assms by (simp add: is_double_def unit_roundoff_def)

lemma num_add_finite:
  assumes "num_add a b = Fin s"
  shows "\<exists>x y. a = Fin x \<and> b = Fin y \<and> to_double (x + y) = Fin s"
  using assms by (cases a; cases b) simp_all

lemma sum_abs_nonneg:
  fixes h :: "'a \<Rightarrow> rat"
  shows "0 \<le> sum_list (map (\<lambda>y. \<bar>h y\<bar>) xs)"
  by (induction xs) simp_all

lemma sum_abs_member:
  fixes h :: "'a \<Rightarrow> rat"
  assumes "x \<in> set xs"
  shows "\<bar>h x\<bar> \<le> sum_list (map (\<lambda>y. \<bar>h y\<bar>) xs)"
  using assms
proof (induction xs)
  case Nil
  then show ?case by simp
next
  case (Cons y ys)
  have n: "0 \<le> sum_list (map (\<lambda>y. \<bar>h y\<bar>) ys)" by (rule sum_abs_nonneg)
  show ?case
  proof (cases "x = y")
    case True
    then show ?thesis using n by simp
  next
    case False
    then have "\<bar>h x\<bar> \<le> sum_list (map (\<lambda>y. \<bar>h y\<bar>) ys)" using Cons by simp
    then show ?thesis by simp
  qed
qed

text \<open>
  The error analysis of the accumulation.  \<open>V\<close> is the sum of the values of the groups,
  \<open>W\<close> the sum of their magnitudes; \<open>S\<close>, \<open>A\<close> and \<open>n\<close> are the sum, the sum of the
  magnitudes and the number of the contributions of the rows that entered a group.
\<close>

lemma breakdown_fold_error:
  assumes own: "list_all (own_key catCol) rows"
    and dbl: "list_all (\<lambda>r. binary64 (row_value det calcs r)) rows"
    and fin: "list_all (\<lambda>p. finite_num (value (snd p)))
                (foldl (breakdown_step catCol det calcs) [] rows)"
  shows "list_all (\<lambda>p. binary64 (value (snd p))) (foldl (breakdown_step catCol det calcs) [] rows)
       \<and> sum_list (map (\<lambda>p. \<bar>fin_val (value (snd p))\<bar>) (foldl (breakdown_step catCol det calcs) [] rows))
           \<le> (1 + unit_roundoff) ^ length (filter (counted catCol) rows)
               * sum_list (map (\<lambda>r. \<bar>fin_val (row_value det calcs r)\<bar>) (filter (counted catCol) rows))
       \<and> \<bar>sum_list (map (\<lambda>p. fin_val (value (snd p))) (foldl (breakdown_step catCol det calcs) [] rows))
            - sum_list (map (\<lambda>r. fin_val (row_value det calcs r)) (filter (counted catCol) rows))\<bar>
           \<le> ((1 + unit_roundoff) ^ length (filter (counted catCol) rows) - 1)
               * sum_list (map (\<lambda>r. \<bar>fin_val (row_value det calcs r)\<bar>) (filter (counted catCol) rows))"
  using assms
proof (induction rows rule: rev_induct)
  case Nil
  show ?case by simp
next
  case (snoc row rows)
  let ?bd = "foldl (breakdown_step catCol det calcs) [] rows"
  let ?k = "js_String (row_get row catCol)"
  let ?rs = "filter (counted catCol) rows"
  let ?u = "unit_roundoff"
  let ?P = "(1 + ?u) ^ length ?rs"
  let ?A = "sum_list (map (\<lambda>r. \<bar>fin_val (row_value det calcs r)\<bar>) ?rs)"
  let ?S = "sum_list (map (\<lambda>r. fin_val (row_value det calcs r)) ?rs)"
  let ?V = "\<lambda>d::group_entry dict. sum_list (map (\<lambda>p. fin_val (value (snd p))) d)"
  let ?W = "\<lambda>d::group_entry dict. sum_list (map (\<lambda>p. \<bar>fin_val (value (snd p))\<bar>) d)"
  have inv: "breakdown_inv ?bd"
    by (rule breakdown_fold_inv) (simp add: breakdown_inv_def)
  have own: "own_key catCol row" and own': "list_all (own_key catCol) rows"
    using snoc.prems(1) by simp_all
  have dbl: "binary64 (row_value det calcs row)"
    and dbl': "list_all (\<lambda>r. binary64 (row_value det calcs r)) rows"
    using snoc.prems(2) by simp_all
  have fin: "list_all (\<lambda>p. finite_num (value (snd p))) (breakdown_step catCol det calcs ?bd row)"
    using snoc.prems(3) by simp
  show ?case
  proof (cases "counted catCol row")
    case False
    then have same: "breakdown_step catCol det calcs ?bd row = ?bd" by (rule breakdown_step_skip)
    have "list_all (\<lambda>p. finite_num (value (snd p))) ?bd" using fin same by simp
    from snoc.IH [OF own' dbl' this] show ?thesis using False same by simp
  next
    case True
    from breakdown_step_split [OF inv own True, of det calcs]
    obtain xs ys g where s: "breakdown_step catCol det calcs ?bd row
          = xs @ (?k, accumulate det calcs row g) # ys"
      and c: "?bd = xs @ (?k, g) # ys \<or> (?bd = xs @ ys \<and> g = new_group ?k)"
      by blast
    have finxs: "list_all (\<lambda>p. finite_num (value (snd p))) (xs @ ys)"
      and fing': "finite_num (value (accumulate det calcs row g))"
      using fin s by simp_all
    obtain s' where s': "num_add (value g) (row_value det calcs row) = Fin s'"
      using fing' by (cases "num_add (value g) (row_value det calcs row)") (simp_all add: accumulate_def)
    from num_add_finite [OF s'] obtain vg cr where
      vg: "value g = Fin vg" and cr: "row_value det calcs row = Fin cr"
      and sum: "to_double (vg + cr) = Fin s'"
      by blast
    have finbd: "list_all (\<lambda>p. finite_num (value (snd p))) ?bd"
      using c finxs vg by auto
    note ih = snoc.IH [OF own' dbl' finbd]
    have ih1: "list_all (\<lambda>p. binary64 (value (snd p))) ?bd" using ih by simp
    have ih2: "?W ?bd \<le> ?P * ?A" using ih by simp
    have ih3: "\<bar>?V ?bd - ?S\<bar> \<le> (?P - 1) * ?A" using ih by simp
    have z: "is_double 0" by (simp add: is_double_def to_double_def)
    have dg: "is_double vg"
      using c
    proof
      assume "?bd = xs @ (?k, g) # ys"
      then have "binary64 (value g)" using ih1 by simp
      then show ?thesis using vg by simp
    next
      assume "?bd = xs @ ys \<and> g = new_group ?k"
      then have "vg = 0" using vg by (simp add: new_group_def)
      then show ?thesis using z by simp
    qed
    have dc: "is_double cr" using dbl cr by simp
    have ds: "is_double s'" using sum by (simp add: is_double_def to_double_idem)
    have err: "\<bar>s' - (vg + cr)\<bar> \<le> ?u * \<bar>vg + cr\<bar>"
      using dg dc sum by (rule num_add_error)
    have val': "value (accumulate det calcs row g) = Fin s'"
      using s' by (simp add: accumulate_def)
    have Vbd: "?V ?bd = ?V (xs @ ys) + vg" and Wbd: "?W ?bd = ?W (xs @ ys) + \<bar>vg\<bar>"
      using c vg by (auto simp: new_group_def)
    have Vn: "?V (breakdown_step catCol det calcs ?bd row) = ?V (xs @ ys) + s'"
      and Wn: "?W (breakdown_step catCol det calcs ?bd row) = ?W (xs @ ys) + \<bar>s'\<bar>"
      using s val' by simp_all
    have u0: "0 \<le> ?u" by (rule unit_roundoff_nonneg)
    have P1: "1 \<le> ?P" using u0 by (intro one_le_power) simp
    have A0: "0 \<le> ?A" by (rule sum_abs_nonneg)
    have W0: "0 \<le> ?W (xs @ ys)" by (rule sum_abs_nonneg)
    have vW: "\<bar>vg\<bar> \<le> ?W ?bd" using Wbd W0 by linarith
    have d1: "\<bar>s' - (vg + cr)\<bar> \<le> ?u * (\<bar>vg\<bar> + \<bar>cr\<bar>)"
    proof -
      have "?u * \<bar>vg + cr\<bar> \<le> ?u * (\<bar>vg\<bar> + \<bar>cr\<bar>)"
        using _ u0 by (rule mult_left_mono) simp
      then show ?thesis using err by linarith
    qed
    have d2: "\<bar>s'\<bar> \<le> (1 + ?u) * (\<bar>vg\<bar> + \<bar>cr\<bar>)"
    proof -
      have "\<bar>s'\<bar> \<le> \<bar>vg + cr\<bar> + \<bar>s' - (vg + cr)\<bar>" by linarith
      also have "\<dots> \<le> (\<bar>vg\<bar> + \<bar>cr\<bar>) + ?u * (\<bar>vg\<bar> + \<bar>cr\<bar>)" using d1 by linarith
      finally show ?thesis by (simp add: algebra_simps)
    qed
    have e1: "\<bar>?V ?bd - ?S\<bar> + \<bar>s' - (vg + cr)\<bar> \<le> ((1 + ?u) * ?P - 1) * (?A + \<bar>cr\<bar>)"
      using P1 u0 A0 _ _ vW ih2 ih3 d1 by (rule error_step) simp_all
    have e2: "?W ?bd - \<bar>vg\<bar> + \<bar>s'\<bar> \<le> (1 + ?u) * ?P * (?A + \<bar>cr\<bar>)"
      using P1 u0 A0 _ _ vW ih2 d2 by (rule abs_step) simp_all
    have r1: "list_all (\<lambda>p. binary64 (value (snd p))) (breakdown_step catCol det calcs ?bd row)"
      using c ih1 ds val' s by auto
    have r2: "?W (breakdown_step catCol det calcs ?bd row)
        \<le> (1 + ?u) ^ length (filter (counted catCol) (rows @ [row]))
            * sum_list (map (\<lambda>r. \<bar>fin_val (row_value det calcs r)\<bar>) (filter (counted catCol) (rows @ [row])))"
      using e2 True cr Wn Wbd by (simp add: algebra_simps)
    have "\<bar>?V (breakdown_step catCol det calcs ?bd row) - (?S + cr)\<bar>
        \<le> \<bar>?V ?bd - ?S\<bar> + \<bar>s' - (vg + cr)\<bar>"
      using Vn Vbd by linarith
    then have r3: "\<bar>?V (breakdown_step catCol det calcs ?bd row)
          - sum_list (map (\<lambda>r. fin_val (row_value det calcs r)) (filter (counted catCol) (rows @ [row])))\<bar>
        \<le> ((1 + ?u) ^ length (filter (counted catCol) (rows @ [row])) - 1)
            * sum_list (map (\<lambda>r. \<bar>fin_val (row_value det calcs r)\<bar>) (filter (counted catCol) (rows @ [row])))"
      using e1 True cr by (simp add: algebra_simps)
    show ?thesis using r1 r2 r3 by simp
  qed
qed

text \<open>
  Claim C5, as the code has it.  The claim says that the counts of the groups add up to
  the number of rows that enter the group step and, in sum mode, the values of the
  groups to the amount total of those rows, within floating-point tolerance.
  \<open>categoryBreakdown\<close> skips a row whose group value is falsy (\<open>if (!cat) return\<close>),
  and it returns only the first \<open>topN\<close> groups when the limit is positive (the default
  is 10).  What holds, for a resolved group column and rows whose group keys are not
  names of inherited properties:
  \<^item> with the limit off, the counts of the groups add up to the number of rows with a
    truthy group value;
  \<^item> with the limit off, when the contributions of the rows (the amount-role number, or
    the calculated column when it is active) are binary64 values, as all numbers of
    the engine are, and no group value is an infinity or \<open>NaN\<close>, the sum of the group
    values differs from the sum of the contributions of the rows with a truthy group
    value by at most \<open>(1 + u)^n - 1\<close> times the sum of the magnitudes of these
    contributions, where \<open>u = 2^-53\<close> is the unit roundoff and \<open>n\<close> the number of these
    rows.  The group values are the binary64 numbers that the code accumulates with
    \<open>value += \<dots>\<close>; the two sums that are compared are exact;
  \<^item> with a positive limit the result is the prefix of that list of the given length.
\<close>

theorem categoryBreakdown_totals:
  assumes "cat_column groupBy det = Some catCol"
    and "list_all (own_key catCol) filteredData"
  shows "sum_list (map count (categoryBreakdown filteredData det calcs groupBy agg 0))
           = length (filter (counted catCol) filteredData)
       \<and> (list_all (\<lambda>row. binary64 (row_value det calcs row)) filteredData
          \<and> list_all (\<lambda>g. finite_num (value g)) (categoryBreakdown filteredData det calcs groupBy agg 0)
          \<longrightarrow>
            \<bar>sum_list (map (\<lambda>g. fin_val (value g)) (categoryBreakdown filteredData det calcs groupBy agg 0))
              - sum_list (map (\<lambda>row. fin_val (row_value det calcs row)) (filter (counted catCol) filteredData))\<bar>
            \<le> ((1 + unit_roundoff) ^ length (filter (counted catCol) filteredData) - 1)
                * sum_list (map (\<lambda>row. \<bar>fin_val (row_value det calcs row)\<bar>)
                    (filter (counted catCol) filteredData)))
       \<and> (0 < topLimit \<longrightarrow>
            categoryBreakdown filteredData det calcs groupBy agg topLimit
              = take topLimit (categoryBreakdown filteredData det calcs groupBy agg 0))"
proof -
  let ?bd = "foldl (breakdown_step catCol det calcs) [] filteredData"
  have res: "categoryBreakdown filteredData det calcs groupBy agg 0
      = js_sort (breakdown_compare agg) (map snd ?bd)"
    using assms(1) by (simp add: categoryBreakdown_def object_values_def)
  have "sum_list (map count (map snd ?bd)) = length (filter (counted catCol) filteredData)"
    using breakdown_fold_count [OF assms(2), of det calcs] by (simp add: comp_def)
  then have c: "sum_list (map count (categoryBreakdown filteredData det calcs groupBy agg 0))
           = length (filter (counted catCol) filteredData)"
    by (simp add: res sum_js_sort)
  have v: "\<bar>sum_list (map (\<lambda>g. fin_val (value g)) (categoryBreakdown filteredData det calcs groupBy agg 0))
              - sum_list (map (\<lambda>row. fin_val (row_value det calcs row)) (filter (counted catCol) filteredData))\<bar>
            \<le> ((1 + unit_roundoff) ^ length (filter (counted catCol) filteredData) - 1)
                * sum_list (map (\<lambda>row. \<bar>fin_val (row_value det calcs row)\<bar>)
                    (filter (counted catCol) filteredData))"
    if dbl: "list_all (\<lambda>row. binary64 (row_value det calcs row)) filteredData"
      and fin: "list_all (\<lambda>g. finite_num (value g)) (categoryBreakdown filteredData det calcs groupBy agg 0)"
  proof -
    have "list_all (\<lambda>g. finite_num (value g)) (map snd ?bd)"
      using fin by (simp add: res list_all_iff set_js_sort)
    then have f: "list_all (\<lambda>p. finite_num (value (snd p))) ?bd"
      by (simp add: list_all_iff)
    have "\<bar>sum_list (map (\<lambda>p. fin_val (value (snd p))) ?bd)
            - sum_list (map (\<lambda>r. fin_val (row_value det calcs r)) (filter (counted catCol) filteredData))\<bar>
           \<le> ((1 + unit_roundoff) ^ length (filter (counted catCol) filteredData) - 1)
               * sum_list (map (\<lambda>r. \<bar>fin_val (row_value det calcs r)\<bar>) (filter (counted catCol) filteredData))"
      using breakdown_fold_error [OF assms(2) dbl f] by simp
    moreover have "sum_list (map (\<lambda>g. fin_val (value g)) (categoryBreakdown filteredData det calcs groupBy agg 0))
        = sum_list (map (\<lambda>p. fin_val (value (snd p))) ?bd)"
      by (simp add: res sum_js_sort comp_def)
    ultimately show ?thesis by simp
  qed
  have t: "0 < topLimit \<longrightarrow>
            categoryBreakdown filteredData det calcs groupBy agg topLimit
              = take topLimit (categoryBreakdown filteredData det calcs groupBy agg 0)"
    using assms(1) by (simp add: categoryBreakdown_def Let_def)
  show ?thesis
    using c v t by blast
qed

lemmas breakdown_eval = categoryBreakdown_def cat_column_def present_def breakdown_step_def
  new_group_def accumulate_def row_value_def row_qty_def ext_total_def
  object_prototype_names_def dict_modify_def object_values_def js_sort_def
  breakdown_compare_def sort_key_of_def num_sub_def Let_def counted_def own_key_def

text \<open>
  Four rows grouped by the column \<open>c\<close> with the amount column \<open>a\<close>: two rows of the
  group \<open>x\<close> with the binary64 values of \<open>0.1\<close> and \<open>0.2\<close>, one row of the group \<open>y\<close>
  and one row without a group value.  The value of the group \<open>x\<close> is the binary64
  \<open>0.30000000000000004\<close>, which is \<open>2^-55\<close> above the sum of the two amounts.
\<close>

lemma breakdown_example:
  "categoryBreakdown
     [[(''c'', Str ''x''), (''a'', Num (Fin (3602879701896397 / 36028797018963968)))],
      [(''c'', Str ''y''), (''a'', Str ''5'')],
      [(''c'', Str ''x''), (''a'', Num (Fin (3602879701896397 / 18014398509481984)))],
      [(''c'', Null), (''a'', Num (Fin 1))]]
     \<lparr>account = None, amount = Some ''a'', quantity = None, date = None, category = Some ''c'',
      partNumber = None\<rparr> [] [] Sum 0
   = [\<lparr>name = ''y'', value = Fin 5, qty = Fin 0, count = 1, fullName = ''y''\<rparr>,
      \<lparr>name = ''x'', value = Fin (1351079888211149 / 4503599627370496), qty = Fin 0, count = 2,
       fullName = ''x''\<rparr>]"
  by (simp add: breakdown_eval dict_eval num_eval)

theorem categoryBreakdown_totals_witness:
  "cat_column [] \<lparr>account = None, amount = Some ''a'', quantity = None, date = None,
      category = Some ''c'', partNumber = None\<rparr> = Some ''c''
   \<and> list_all (own_key ''c'')
     [[(''c'', Str ''x''), (''a'', Num (Fin (3602879701896397 / 36028797018963968)))],
      [(''c'', Str ''y''), (''a'', Str ''5'')],
      [(''c'', Str ''x''), (''a'', Num (Fin (3602879701896397 / 18014398509481984)))],
      [(''c'', Null), (''a'', Num (Fin 1))]]
   \<and> list_all (\<lambda>row. binary64 (row_value \<lparr>account = None, amount = Some ''a'', quantity = None,
          date = None, category = Some ''c'', partNumber = None\<rparr> [] row))
     [[(''c'', Str ''x''), (''a'', Num (Fin (3602879701896397 / 36028797018963968)))],
      [(''c'', Str ''y''), (''a'', Str ''5'')],
      [(''c'', Str ''x''), (''a'', Num (Fin (3602879701896397 / 18014398509481984)))],
      [(''c'', Null), (''a'', Num (Fin 1))]]
   \<and> list_all (\<lambda>g. finite_num (value g)) (categoryBreakdown
     [[(''c'', Str ''x''), (''a'', Num (Fin (3602879701896397 / 36028797018963968)))],
      [(''c'', Str ''y''), (''a'', Str ''5'')],
      [(''c'', Str ''x''), (''a'', Num (Fin (3602879701896397 / 18014398509481984)))],
      [(''c'', Null), (''a'', Num (Fin 1))]]
     \<lparr>account = None, amount = Some ''a'', quantity = None, date = None, category = Some ''c'',
      partNumber = None\<rparr> [] [] Sum 0)
   \<and> sum_list (map count (categoryBreakdown
     [[(''c'', Str ''x''), (''a'', Num (Fin (3602879701896397 / 36028797018963968)))],
      [(''c'', Str ''y''), (''a'', Str ''5'')],
      [(''c'', Str ''x''), (''a'', Num (Fin (3602879701896397 / 18014398509481984)))],
      [(''c'', Null), (''a'', Num (Fin 1))]]
     \<lparr>account = None, amount = Some ''a'', quantity = None, date = None, category = Some ''c'',
      partNumber = None\<rparr> [] [] Sum 0)) = 3
   \<and> \<bar>sum_list (map (\<lambda>g. fin_val (value g)) (categoryBreakdown
     [[(''c'', Str ''x''), (''a'', Num (Fin (3602879701896397 / 36028797018963968)))],
      [(''c'', Str ''y''), (''a'', Str ''5'')],
      [(''c'', Str ''x''), (''a'', Num (Fin (3602879701896397 / 18014398509481984)))],
      [(''c'', Null), (''a'', Num (Fin 1))]]
     \<lparr>account = None, amount = Some ''a'', quantity = None, date = None, category = Some ''c'',
      partNumber = None\<rparr> [] [] Sum 0))
      - (3602879701896397 / 36028797018963968 + 5 + 3602879701896397 / 18014398509481984)\<bar>
     \<le> ((1 + unit_roundoff) ^ 3 - 1)
         * (3602879701896397 / 36028797018963968 + 5 + 3602879701896397 / 18014398509481984)
   \<and> categoryBreakdown
     [[(''c'', Str ''x''), (''a'', Num (Fin (3602879701896397 / 36028797018963968)))],
      [(''c'', Str ''y''), (''a'', Str ''5'')],
      [(''c'', Str ''x''), (''a'', Num (Fin (3602879701896397 / 18014398509481984)))],
      [(''c'', Null), (''a'', Num (Fin 1))]]
     \<lparr>account = None, amount = Some ''a'', quantity = None, date = None, category = Some ''c'',
      partNumber = None\<rparr> [] [] Sum 1
     = [\<lparr>name = ''y'', value = Fin 5, qty = Fin 0, count = 1, fullName = ''y''\<rparr>]"
  using categoryBreakdown_totals [of "[]"
     "\<lparr>account = None, amount = Some ''a'', quantity = None, date = None, category = Some ''c'',
      partNumber = None\<rparr>" "''c''"
     "[[(''c'', Str ''x''), (''a'', Num (Fin (3602879701896397 / 36028797018963968)))],
      [(''c'', Str ''y''), (''a'', Str ''5'')],
      [(''c'', Str ''x''), (''a'', Num (Fin (3602879701896397 / 18014398509481984)))],
      [(''c'', Null), (''a'', Num (Fin 1))]]" "[]" Sum 1]
  by (simp add: breakdown_example cat_column_def present_def counted_def own_key_def
      row_value_def ext_total_def object_prototype_names_def is_double_def unit_roundoff_def
      power3_eq_cube dict_eval num_eval)

text \<open>
  The claim as stated fails on these rows.  Four rows enter the group step; with the
  limit off the counts of the groups add up to 3, because the row without a group
  value is skipped.  With the limit 1 only the group \<open>y\<close> is returned: the counts add up
  to 1 and the values to 5, while the amounts of the four rows add up to more than 6.
\<close>

theorem categoryBreakdown_totals_counterexample:
  "length
     [[(''c'', Str ''x''), (''a'', Num (Fin (3602879701896397 / 36028797018963968)))],
      [(''c'', Str ''y''), (''a'', Str ''5'')],
      [(''c'', Str ''x''), (''a'', Num (Fin (3602879701896397 / 18014398509481984)))],
      [(''c'', Null), (''a'', Num (Fin (1::rat)))]] = 4
   \<and> sum_list (map count (categoryBreakdown
     [[(''c'', Str ''x''), (''a'', Num (Fin (3602879701896397 / 36028797018963968)))],
      [(''c'', Str ''y''), (''a'', Str ''5'')],
      [(''c'', Str ''x''), (''a'', Num (Fin (3602879701896397 / 18014398509481984)))],
      [(''c'', Null), (''a'', Num (Fin 1))]]
     \<lparr>account = None, amount = Some ''a'', quantity = None, date = None, category = Some ''c'',
      partNumber = None\<rparr> [] [] Sum 0)) = 3
   \<and> sum_list (map count (categoryBreakdown
     [[(''c'', Str ''x''), (''a'', Num (Fin (3602879701896397 / 36028797018963968)))],
      [(''c'', Str ''y''), (''a'', Str ''5'')],
      [(''c'', Str ''x''), (''a'', Num (Fin (3602879701896397 / 18014398509481984)))],
      [(''c'', Null), (''a'', Num (Fin 1))]]
     \<lparr>account = None, amount = Some ''a'', quantity = None, date = None, category = Some ''c'',
      partNumber = None\<rparr> [] [] Sum 1)) = 1
   \<and> map value (categoryBreakdown
     [[(''c'', Str ''x''), (''a'', Num (Fin (3602879701896397 / 36028797018963968)))],
      [(''c'', Str ''y''), (''a'', Str ''5'')],
      [(''c'', Str ''x''), (''a'', Num (Fin (3602879701896397 / 18014398509481984)))],
      [(''c'', Null), (''a'', Num (Fin 1))]]
     \<lparr>account = None, amount = Some ''a'', quantity = None, date = None, category = Some ''c'',
      partNumber = None\<rparr> [] [] Sum 1) = [Fin 5]
   \<and> map (\<lambda>row. or_zero (parseFloat_val (row_get row ''a'')))
     [[(''c'', Str ''x''), (''a'', Num (Fin (3602879701896397 / 36028797018963968)))],
      [(''c'', Str ''y''), (''a'', Str ''5'')],
      [(''c'', Str ''x''), (''a'', Num (Fin (3602879701896397 / 18014398509481984)))],
      [(''c'', Null), (''a'', Num (Fin 1))]]
     = [Fin (3602879701896397 / 36028797018963968), Fin 5,
        Fin (3602879701896397 / 18014398509481984), Fin 1]"
  by (simp add: breakdown_eval dict_eval num_eval)

text \<open>
  A group value that is the name of a property which every object inherits
  (\<open>constructor\<close>, \<open>toString\<close>, \<dots>) is outside the theorem.  \<open>breakdown\<close> is created
  as \<open>{}\<close>, so \<open>breakdown[cat]\<close> finds the inherited value, no group is stored, and the
  row is in no group of the result: a defect of the code, not a rule of the grouping.
\<close>

lemma categoryBreakdown_inherited_key:
  "categoryBreakdown
     [[(''c'', Str ''constructor''), (''a'', Num (Fin 5))],
      [(''c'', Str ''x''), (''a'', Num (Fin 1))]]
     \<lparr>account = None, amount = Some ''a'', quantity = None, date = None, category = Some ''c'',
      partNumber = None\<rparr> [] [] Sum 0
   = [\<lparr>name = ''x'', value = Fin 1, qty = Fin 0, count = 1, fullName = ''x''\<rparr>]"
  by (simp add: breakdown_eval dict_eval num_eval)

subsection \<open>Export and decoding of a field\<close>

lemma replace_char_absent: "c \<notin> set s \<Longrightarrow> replace_char c rep s = s"
  by (induction s) (auto simp: replace_char_def)

lemma replace_pair_absent: "a \<notin> set s \<Longrightarrow> replace_pair a b rep s = s"
  by (induction a b rep s rule: replace_pair.induct) auto

lemma trim_id:
  assumes "s \<noteq> []" and "\<not> is_ws (hd s)" and "\<not> is_ws (last s)"
  shows "trim s = s"
proof -
  have a: "dropWhile is_ws s = s"
    using assms(1,2) by (cases s) auto
  have "rev s \<noteq> []" using assms(1) by simp
  moreover have "\<not> is_ws (hd (rev s))" using assms(1,3) by (simp add: hd_rev)
  ultimately have b: "dropWhile is_ws (rev s) = rev s"
    by (cases "rev s") auto
  show ?thesis by (simp add: trim_def a b)
qed

lemma decode_quoted:
  assumes "CHR 0x22 \<notin> set s" and "CHR 0x5C \<notin> set s"
  shows "decode_value ([CHR 0x22] @ s @ [CHR 0x22]) = Str s"
proof -
  let ?v = "[CHR 0x22] @ s @ [CHR 0x22]"
  have t: "trim ?v = ?v"
    by (rule trim_id) (simp_all add: is_ws_def)
  have q: "startsWith ?v [CHR 0x22] \<and> endsWith ?v [CHR 0x22]"
    by (simp add: startsWith_def endsWith_def)
  have sl: "slice_1_m1 ?v = s"
    by (simp add: slice_1_m1_def butlast_append)
  show ?thesis
    using q assms(2) by (simp add: decode_value_def t sl replace_pair_absent del: append.simps)
qed

lemma decode_plain:
  assumes "trim s = s"
    and "\<not> (startsWith s [CHR 0x27] \<and> endsWith s [CHR 0x27])"
    and "\<not> (startsWith s [CHR 0x22] \<and> endsWith s [CHR 0x22])"
    and "toUpperCase s \<noteq> ''NULL''"
    and "isNaN (parseFloat s) \<or> \<not> isFinite_str s"
  shows "decode_value s = Str s"
  using assms by (auto simp: decode_value_def)

lemma digit_char_props:
  assumes "0 \<le> d" and "d < 10"
  shows "is_digit (digit_char d) \<and> digit_val (digit_char d) = d"
proof -
  have "d = 0 \<or> d = 1 \<or> d = 2 \<or> d = 3 \<or> d = 4 \<or> d = 5 \<or> d = 6 \<or> d = 7 \<or> d = 8 \<or> d = 9"
    using assms by arith
  then show ?thesis
    by (auto simp: digit_char_def is_digit_def digit_val_def)
qed

lemma digits_val_snoc: "digits_val (xs @ [c]) = 10 * digits_val xs + digit_val c"
  by (simp add: digits_val_def)

lemma digits_of_int_props:
  "0 \<le> n \<Longrightarrow> digits_of_int n \<noteq> [] \<and> list_all is_digit (digits_of_int n)
     \<and> digits_val (digits_of_int n) = n"
proof (induction n rule: digits_of_int.induct)
  case (1 n)
  show ?case
  proof (cases "n < 10")
    case True
    then have "digits_of_int n = [digit_char n]"
      by (subst digits_of_int.simps) simp
    then show ?thesis
      using digit_char_props [of n] True "1.prems" by (simp add: digits_val_def)
  next
    case False
    then have eq: "digits_of_int n = digits_of_int (n div 10) @ [digit_char (n mod 10)]"
      by (subst digits_of_int.simps) simp
    have ih: "list_all is_digit (digits_of_int (n div 10)) \<and> digits_val (digits_of_int (n div 10)) = n div 10"
      using "1.IH" [OF False] "1.prems" by simp
    have d: "is_digit (digit_char (n mod 10)) \<and> digit_val (digit_char (n mod 10)) = n mod 10"
      by (rule digit_char_props) simp_all
    show ?thesis
      using ih d by (simp add: eq digits_val_snoc)
  qed
qed

lemma is_digit_code: "is_digit c \<Longrightarrow> 48 \<le> (of_char c :: nat) \<and> (of_char c :: nat) \<le> 57"
  by (simp add: is_digit_def less_eq_char_def)

lemma digit_not_ws: "is_digit c \<Longrightarrow> \<not> is_ws c"
  by (auto simp: is_ws_def dest!: is_digit_code)

lemma upper_char_digit:
  assumes "is_digit c"
  shows "upper_char c = c"
proof -
  have "\<not> is_lower c"
    using is_digit_code [OF assms] by (simp add: is_lower_def less_eq_char_def)
  then show ?thesis
    by (simp add: upper_char_def)
qed

lemma digit_upper: "is_digit c \<Longrightarrow> upper_char c \<noteq> CHR ''N''"
  using is_digit_code [of c] by (auto simp: upper_char_digit)

lemma takeWhile_all_digits: "list_all is_digit ds \<Longrightarrow> takeWhile is_digit ds = ds"
  by (induction ds) auto

lemma dropWhile_all_digits: "list_all is_digit ds \<Longrightarrow> dropWhile is_digit ds = []"
  by (induction ds) auto

lemma parse_unsigned_digits:
  assumes "ds \<noteq> []" and "list_all is_digit ds"
  shows "parse_unsigned ds = Some (to_double (of_int (digits_val ds)), [])"
proof -
  obtain c cs where ds: "ds = c # cs" using assms(1) by (cases ds) auto
  then have c: "is_digit c" using assms(2) by simp
  have "c \<noteq> CHR ''I''" using is_digit_code [OF c] by auto
  then have ni: "\<not> startsWith ds ''Infinity''"
    by (simp add: startsWith_def ds)
  show ?thesis
    using ni assms(1)
    by (simp add: parse_unsigned_def Let_def takeWhile_all_digits [OF assms(2)]
        dropWhile_all_digits [OF assms(2)])
qed


lemma no_quote_not_started: "CHR 0x22 \<notin> set s \<Longrightarrow> \<not> startsWith s [CHR 0x22]"
  by (cases s) (auto simp: startsWith_def)

subsection \<open>The SQL dump extractor on concrete texts\<close>

lemmas re_eval = rmatch.simps exec_all.simps createTableRegex_def colRegex_def insertRegex_def
  valueSetRegex_def open_quote_def close_quote_def any_char_def not_rparen_def is_char_def
  is_ws_def is_word_def is_upper_def is_lower_def is_digit_def toLowerCase_def lower_char_def
  group_def Let_def

lemmas row_eval = tuple_step_def make_row_def synth_cols_def split_values_def decode_value_def
  slice_1_m1_def startsWith_def endsWith_def toUpperCase_def upper_char_def is_lower_def
  trim_def is_ws_def enumerate_eq_zip group_def Let_def

lemmas schema_eval = table_schemas_def schema_step_def group_def toLowerCase_def lower_char_def
  is_upper_def Let_def

lemmas parse_eval = parseSQLFile_def insert_step_def explicit_cols_def renumber_def
  assign_all_def dict_modify_def toLowerCase_def lower_char_def is_upper_def group_def
  enumerate_eq_zip Let_def

subsubsection \<open>The statement with the quoted comma\<close>














subsubsection \<open>The scanner on well-formed fields\<close>













subsubsection \<open>A closing parenthesis inside a quoted literal\<close>

lemma paren_clean:
  "clean_content ''CREATE TABLE t (a TEXT); INSERT INTO t VALUES ('x)(');''
     = ''CREATE TABLE t (a TEXT); INSERT INTO t VALUES ('x)(');''"
  by (simp add: clean_content_def line_end_def)

lemma paren_create:
  "exec_all createTableRegex ''CREATE TABLE t (a TEXT); INSERT INTO t VALUES ('x)(');''
     = [[(2, ''a TEXT''), (1, ''t'')]]"
  by (simp add: re_eval)

lemma cols_a_text: "column_defs ''a TEXT'' = [''a'']"
  by (simp add: column_defs_def re_eval)

lemma paren_schemas:
  "table_schemas ''CREATE TABLE t (a TEXT); INSERT INTO t VALUES ('x)(');'' = [(''t'', [''a''])]"
  by (simp add: schema_eval paren_create cols_a_text dict_eval)

lemma paren_insert:
  "exec_all insertRegex ''CREATE TABLE t (a TEXT); INSERT INTO t VALUES ('x)(');''
     = [[(3, ''('x)(')''), (1, ''t'')]]"
  by (simp add: re_eval)

lemma paren_tuples:
  "exec_all valueSetRegex ''('x)(')'' = [[(1, [CHR 0x27, CHR ''x''])], [(1, [CHR 0x27])]]"
  by (simp add: re_eval)

lemma paren_row_0:
  "tuple_step ([''a''], []) [(Suc 0, [CHR 0x27, CHR ''x''])]
     = ([''a''], [[(''_id'', Num (Fin 0)), (''a'', Str [CHR 0x27, CHR ''x''])]])"
  by (simp add: row_eval dict_eval num_eval str_eval)

lemma paren_row_1:
  "tuple_step ([''a''], [[(''_id'', Num (Fin 0)), (''a'', Str [CHR 0x27, CHR ''x''])]])
       [(Suc 0, [CHR 0x27])]
     = ([''a''], [[(''_id'', Num (Fin 0)), (''a'', Str [CHR 0x27, CHR ''x''])],
                  [(''_id'', Num (Fin 1)), (''a'', Str [])]])"
  by (simp add: row_eval dict_eval num_eval str_eval)

lemma parse_paren:
  "parseSQLFile ''CREATE TABLE t (a TEXT); INSERT INTO t VALUES ('x)(');''
     = Inr \<lparr>parsed_tables =
               [(''t'', [[(''_id'', Num (Fin 0)), (''a'', Str [CHR 0x27, CHR ''x''])],
                         [(''_id'', Num (Fin 1)), (''a'', Str [])]])],
             schemas = [(''t'', [''a''])]\<rparr>"
  by (simp add: parse_eval paren_clean paren_schemas paren_insert paren_tuples paren_row_0
      paren_row_1 dict_eval)

subsubsection \<open>A keyword inside a quoted literal\<close>

lemma keyword_clean:
  "clean_content ''CREATE TABLE t (a INT, b TEXT); INSERT INTO t VALUES (1, 'updated');''
     = ''CREATE TABLE t (a INT, b TEXT); INSERT INTO t VALUES (1, 'updated');''"
  by (simp add: clean_content_def line_end_def)

lemma keyword_create:
  "exec_all createTableRegex
     ''CREATE TABLE t (a INT, b TEXT); INSERT INTO t VALUES (1, 'updated');''
     = [[(2, ''a INT, b TEXT''), (1, ''t'')]]"
  by (simp add: re_eval)

lemma cols_a_b: "column_defs ''a INT, b TEXT'' = [''a'', ''b'']"
  by (simp add: column_defs_def re_eval)

lemma keyword_schemas:
  "table_schemas ''CREATE TABLE t (a INT, b TEXT); INSERT INTO t VALUES (1, 'updated');''
     = [(''t'', [''a'', ''b''])]"
  by (simp add: schema_eval keyword_create cols_a_b dict_eval)

lemma keyword_insert:
  "exec_all insertRegex ''CREATE TABLE t (a INT, b TEXT); INSERT INTO t VALUES (1, 'updated');''
     = [[(3, [CHR ''('', CHR ''1'', CHR '','', CHR '' '', CHR 0x27]), (1, ''t'')]]"
  by (simp add: re_eval)

lemma keyword_tuples:
  "exec_all valueSetRegex [CHR ''('', CHR ''1'', CHR '','', CHR '' '', CHR 0x27] = []"
  by (simp add: re_eval)

lemma parse_keyword:
  "parseSQLFile ''CREATE TABLE t (a INT, b TEXT); INSERT INTO t VALUES (1, 'updated');''
     = Inr \<lparr>parsed_tables = [], schemas = [(''t'', [''a'', ''b''])]\<rparr>"
  by (simp add: parse_eval keyword_clean keyword_schemas keyword_insert keyword_tuples dict_eval)

subsubsection \<open>Column names that are array indices\<close>

lemma years_clean:
  "clean_content ''CREATE TABLE s (region TEXT, [2024] INT, [2023] INT); INSERT INTO s VALUES ('n', 1, 2);''
     = ''CREATE TABLE s (region TEXT, [2024] INT, [2023] INT); INSERT INTO s VALUES ('n', 1, 2);''"
  by (simp add: clean_content_def line_end_def)

lemma years_create:
  "exec_all createTableRegex
     ''CREATE TABLE s (region TEXT, [2024] INT, [2023] INT); INSERT INTO s VALUES ('n', 1, 2);''
     = [[(2, ''region TEXT, [2024] INT, [2023] INT''), (1, ''s'')]]"
  by (simp add: re_eval)

lemma years_cols:
  "column_defs ''region TEXT, [2024] INT, [2023] INT'' = [''region'', ''2024'', ''2023'']"
  by (simp add: column_defs_def re_eval)

lemma years_schemas:
  "table_schemas ''CREATE TABLE s (region TEXT, [2024] INT, [2023] INT); INSERT INTO s VALUES ('n', 1, 2);''
     = [(''s'', [''region'', ''2024'', ''2023''])]"
  by (simp add: schema_eval years_create years_cols dict_eval)

lemma years_insert:
  "exec_all insertRegex
     ''CREATE TABLE s (region TEXT, [2024] INT, [2023] INT); INSERT INTO s VALUES ('n', 1, 2);''
     = [[(3, ''('n', 1, 2)''), (1, ''s'')]]"
  by (simp add: re_eval)

lemma years_tuples:
  "exec_all valueSetRegex ''('n', 1, 2)'' = [[(1, '''n', 1, 2'')]]"
  by (simp add: re_eval)

lemma years_row:
  "tuple_step ([''region'', ''2024'', ''2023''], []) [(Suc 0, '''n', 1, 2'')]
     = ([''region'', ''2024'', ''2023''],
        [[(''2023'', Num (Fin 2)), (''2024'', Num (Fin 1)), (''_id'', Num (Fin 0)),
          (''region'', Str ''n'')]])"
  by (simp add: row_eval dict_eval num_eval str_eval)

lemma parse_years:
  "parseSQLFile ''CREATE TABLE s (region TEXT, [2024] INT, [2023] INT); INSERT INTO s VALUES ('n', 1, 2);''
     = Inr \<lparr>parsed_tables =
               [(''s'', [[(''2023'', Num (Fin 2)), (''2024'', Num (Fin 1)),
                          (''_id'', Num (Fin 0)), (''region'', Str ''n'')]])],
             schemas = [(''s'', [''region'', ''2024'', ''2023''])]\<rparr>"
  by (simp add: parse_eval years_clean years_schemas years_insert years_tuples years_row
      dict_eval)

text \<open>
  Claim C1.  The row count of the extracted table is not always the number of value tuples
  of the \<open>INSERT\<close>, and its column order is not always the declaration order.  The
  tuple pattern \<open>\(([^)]+)\)\<close> and the lookahead that ends the values block do not
  know about quotes, and a row is an object, whose keys that are array indices come first
  in ascending order.
  \<^item> One tuple whose literal contains \<open>)(\<close> gives two rows.
  \<^item> One tuple whose literal contains the word \<open>updated\<close> gives no row, and the table
    is missing from the result.
  \<^item> The columns declared as \<open>region\<close>, \<open>2024\<close>, \<open>2023\<close> come out as \<open>2023\<close>,
    \<open>2024\<close>, \<open>region\<close>.
\<close>

theorem parseSQLFile_rows_and_columns_diverge:
  "parseSQLFile ''CREATE TABLE t (a TEXT); INSERT INTO t VALUES ('x)(');''
     = Inr \<lparr>parsed_tables =
               [(''t'', [[(''_id'', Num (Fin 0)), (''a'', Str [CHR 0x27, CHR ''x''])],
                         [(''_id'', Num (Fin 1)), (''a'', Str [])]])],
             schemas = [(''t'', [''a''])]\<rparr>
   \<and> parseSQLFile ''CREATE TABLE t (a INT, b TEXT); INSERT INTO t VALUES (1, 'updated');''
     = Inr \<lparr>parsed_tables = [], schemas = [(''t'', [''a'', ''b''])]\<rparr>
   \<and> parseSQLFile ''CREATE TABLE s (region TEXT, [2024] INT, [2023] INT); INSERT INTO s VALUES ('n', 1, 2);''
     = Inr \<lparr>parsed_tables =
               [(''s'', [[(''2023'', Num (Fin 2)), (''2024'', Num (Fin 1)),
                          (''_id'', Num (Fin 0)), (''region'', Str ''n'')]])],
             schemas = [(''s'', [''region'', ''2024'', ''2023''])]\<rparr>
   \<and> table_columns [[(''2023'', Num (Fin 2)), (''2024'', Num (Fin 1)),
                        (''_id'', Num (Fin 0)), (''region'', Str ''n'')]]
     = [''2023'', ''2024'', ''region'']"
  by (simp only: parse_paren parse_keyword parse_years, simp add: table_columns_def object_keys_def)

end
